theory Spec2Isabelle
  imports Complex_Main "HOL-Library.Log_Nat"
begin

section \<open>JavaScript numbers: IEEE 754 binary64\<close>

text \<open>
  Every number of \<^verbatim>\<open>Home.tsx\<close> is a JavaScript Number, an IEEE 754 binary64 value.
  A value is \<open>NaN\<close>, an infinity with its sign, or a finite value given by its sign bit
  (\<open>True\<close> is negative) and its magnitude; \<open>Fin True 0\<close> is the negative zero.
  Arithmetic computes the exact real result and rounds its magnitude to the nearest
  binary64 value, ties to the even significand, as ECMAScript specifies.
\<close>

datatype double = NaN | Infinity bool | Fin bool real

text \<open>Integer powers of two and ten, by integer exponent.\<close>

definition pow2 :: "int \<Rightarrow> real" where
  "pow2 k = (if 0 \<le> k then 2 ^ nat k else 1 / 2 ^ nat (- k))"

definition pow10 :: "int \<Rightarrow> real" where
  "pow10 k = (if 0 \<le> k then 10 ^ nat k else 1 / 10 ^ nat (- k))"

text \<open>The binary exponent of a positive real: the \<open>k\<close> with \<open>2^k \<le> m < 2^(k+1)\<close>.\<close>

definition ilog2 :: "real \<Rightarrow> int" where
  "ilog2 m = (if 1 \<le> m then bitlen \<lfloor>m\<rfloor> - 1 else - bitlen (\<lceil>1 / m\<rceil> - 1))"

text \<open>Rounding a real to the nearest integer, a tie to the even one.\<close>

definition round_half_even :: "real \<Rightarrow> int" where
  "round_half_even x =
     (let n = \<lfloor>x\<rfloor>; r = x - of_int n
      in if r < 1 / 2 then n
         else if 1 / 2 < r then n + 1
         else if even n then n else n + 1)"

text \<open>
  The exponent of the unit in the last place for a magnitude: 52 below the binary
  exponent for a normal number, \<open>-1074\<close> in the subnormal range.
\<close>

definition quantum_exp :: "real \<Rightarrow> int" where
  "quantum_exp m = (if m < pow2 (- 1022) then - 1074 else ilog2 m - 52)"

definition round_mag :: "real \<Rightarrow> real" where
  "round_mag m = of_int (round_half_even (m / pow2 (quantum_exp m))) * pow2 (quantum_exp m)"

text \<open>
  The binary64 value of sign \<open>s\<close> nearest to the magnitude \<open>m \<ge> 0\<close>; a magnitude
  that rounds to \<open>2^1024\<close> or beyond overflows to the infinity of that sign.
\<close>

definition round_to_double :: "bool \<Rightarrow> real \<Rightarrow> double" where
  "round_to_double s m = (if pow2 1024 \<le> round_mag m then Infinity s else Fin s (round_mag m))"

text \<open>A numeric literal of the source text denotes the binary64 value nearest to it.\<close>

definition lit :: "real \<Rightarrow> double" where
  "lit r = round_to_double False r"

text \<open>The real value of a finite number.\<close>

fun signed_mag :: "bool \<Rightarrow> real \<Rightarrow> real" where
  "signed_mag s m = (if s then - m else m)"

text \<open>
  Well-formed values: the magnitude of a finite value is not negative and is a binary64
  magnitude, that is, rounding leaves it as it is.
\<close>

fun is_double :: "double \<Rightarrow> bool" where
  "is_double NaN = True"
| "is_double (Infinity s) = True"
| "is_double (Fin s m) = (0 \<le> m \<and> round_to_double s m = Fin s m)"

fun isNaN :: "double \<Rightarrow> bool" where
  "isNaN NaN = True"
| "isNaN (Infinity s) = False"
| "isNaN (Fin s m) = False"

fun isFinite :: "double \<Rightarrow> bool" where
  "isFinite NaN = False"
| "isFinite (Infinity s) = False"
| "isFinite (Fin s m) = True"

subsection \<open>Arithmetic (ECMAScript Number::add, subtract, multiply, divide)\<close>

fun fneg :: "double \<Rightarrow> double" where
  "fneg NaN = NaN"
| "fneg (Infinity s) = Infinity (\<not> s)"
| "fneg (Fin s m) = Fin (\<not> s) m"

fun fadd :: "double \<Rightarrow> double \<Rightarrow> double" where
  "fadd NaN y = NaN"
| "fadd (Infinity s) NaN = NaN"
| "fadd (Infinity s) (Infinity t) = (if s = t then Infinity s else NaN)"
| "fadd (Infinity s) (Fin t n) = Infinity s"
| "fadd (Fin s m) NaN = NaN"
| "fadd (Fin s m) (Infinity t) = Infinity t"
| "fadd (Fin s m) (Fin t n) =
     (let v = signed_mag s m + signed_mag t n
      in if v = 0 then Fin (s \<and> t) 0 else round_to_double (v < 0) \<bar>v\<bar>)"

definition fsub :: "double \<Rightarrow> double \<Rightarrow> double" where
  "fsub x y = fadd x (fneg y)"

fun fmul :: "double \<Rightarrow> double \<Rightarrow> double" where
  "fmul NaN y = NaN"
| "fmul (Infinity s) NaN = NaN"
| "fmul (Infinity s) (Infinity t) = Infinity (s \<noteq> t)"
| "fmul (Infinity s) (Fin t n) = (if n = 0 then NaN else Infinity (s \<noteq> t))"
| "fmul (Fin s m) NaN = NaN"
| "fmul (Fin s m) (Infinity t) = (if m = 0 then NaN else Infinity (s \<noteq> t))"
| "fmul (Fin s m) (Fin t n) = round_to_double (s \<noteq> t) (m * n)"

fun fdiv :: "double \<Rightarrow> double \<Rightarrow> double" where
  "fdiv NaN y = NaN"
| "fdiv (Infinity s) NaN = NaN"
| "fdiv (Infinity s) (Infinity t) = NaN"
| "fdiv (Infinity s) (Fin t n) = Infinity (s \<noteq> t)"
| "fdiv (Fin s m) NaN = NaN"
| "fdiv (Fin s m) (Infinity t) = Fin (s \<noteq> t) 0"
| "fdiv (Fin s m) (Fin t n) =
     (if n = 0 then (if m = 0 then NaN else Infinity (s \<noteq> t))
      else round_to_double (s \<noteq> t) (m / n))"

subsection \<open>Math.abs and Math.sqrt\<close>

fun Math_abs :: "double \<Rightarrow> double" where
  "Math_abs NaN = NaN"
| "Math_abs (Infinity s) = Infinity False"
| "Math_abs (Fin s m) = Fin False m"

text \<open>
  \<^verbatim>\<open>Math.sqrt\<close> never throws: the root of a negative number is \<open>NaN\<close>, the root of a
  zero is that zero, and the root of a positive number is the exact root, rounded.
\<close>

fun Math_sqrt :: "double \<Rightarrow> double" where
  "Math_sqrt NaN = NaN"
| "Math_sqrt (Infinity s) = (if s then NaN else Infinity False)"
| "Math_sqrt (Fin s m) =
     (if m = 0 then Fin s 0 else if s then NaN else round_to_double False (sqrt m))"

subsection \<open>Comparison\<close>

text \<open>The relational operator \<^verbatim>\<open><\<close>: false whenever an operand is \<open>NaN\<close>.\<close>

fun js_lt :: "double \<Rightarrow> double \<Rightarrow> bool" where
  "js_lt NaN y = False"
| "js_lt (Infinity s) NaN = False"
| "js_lt (Infinity s) (Infinity t) = (s \<and> \<not> t)"
| "js_lt (Infinity s) (Fin t n) = s"
| "js_lt (Fin s m) NaN = False"
| "js_lt (Fin s m) (Infinity t) = (\<not> t)"
| "js_lt (Fin s m) (Fin t n) = (signed_mag s m < signed_mag t n)"

text \<open>The relational operator \<^verbatim>\<open><=\<close>.\<close>

fun js_le :: "double \<Rightarrow> double \<Rightarrow> bool" where
  "js_le NaN y = False"
| "js_le (Infinity s) NaN = False"
| "js_le (Infinity s) (Infinity t) = (s \<or> \<not> t)"
| "js_le (Infinity s) (Fin t n) = s"
| "js_le (Fin s m) NaN = False"
| "js_le (Fin s m) (Infinity t) = (\<not> t)"
| "js_le (Fin s m) (Fin t n) = (signed_mag s m \<le> signed_mag t n)"

text \<open>
  From \<open>a\<close> to \<open>b\<close> the value does not decrease: \<open>b < a\<close> is false. (It is also
  false when one of them is \<open>NaN\<close>.)
\<close>

definition no_decrease :: "double \<Rightarrow> double \<Rightarrow> bool" where
  "no_decrease a b \<longleftrightarrow> \<not> js_lt b a"

section \<open>Strings and numbers\<close>

text \<open>
  A string is a list of characters, each one code unit in the range 0 to 255; the
  code units of JavaScript beyond 255 are not modelled (some of them are white space,
  none is a digit, a sign or a point). The decimal digits are the code units 48 to 57.
\<close>

definition is_digit :: "char \<Rightarrow> bool" where
  "is_digit c \<longleftrightarrow> 48 \<le> (of_char c :: nat) \<and> (of_char c :: nat) \<le> 57"

definition digit_val :: "char \<Rightarrow> nat" where
  "digit_val c = of_char c - 48"

definition digit_char :: "nat \<Rightarrow> char" where
  "digit_char d = ''0123456789'' ! d"

text \<open>The value of a string of decimal digits, and the decimal digits of a number.\<close>

definition digits_val :: "string \<Rightarrow> nat" where
  "digits_val ds = foldl (\<lambda>a c. 10 * a + digit_val c) 0 ds"

fun digits_of :: "nat \<Rightarrow> string" where
  "digits_of n =
     (if n < 10 then [digit_char n] else digits_of (n div 10) @ [digit_char (n mod 10)])"

declare digits_of.simps [simp del]

subsection \<open>Number.prototype.toFixed\<close>

datatype js_error = RangeError

text \<open>
  The digits of \<open>x \<ge> 0\<close> with \<open>f\<close> digits after the point: \<open>n\<close> is the integer for
  which \<open>n / 10^f\<close> is nearest to \<open>x\<close>, the larger one of two; its digits are padded
  with zeros on the left to \<open>f + 1\<close> digits and the point goes before the last \<open>f\<close>.
\<close>

definition fixed_digits :: "real \<Rightarrow> nat \<Rightarrow> string" where
  "fixed_digits x f =
     (let n = nat \<lfloor>x * 10 ^ f + 1 / 2\<rfloor>;
          m = digits_of n
      in if f = 0 then m
         else
           (let m' = (if length m \<le> f then replicate (f + 1 - length m) CHR ''0'' @ m else m);
                k = length m'
            in take (k - f) m' @ ''.'' @ drop (k - f) m'))"

text \<open>
  From \<open>10^21\<close> on, \<^verbatim>\<open>toFixed\<close> returns the number's ordinary string, in exponent
  notation with the fewest digits that read back as the same number. A binary64 value
  of that size is an integer; the model writes all its decimal digits, which read back
  as the same number too, so what \<^verbatim>\<open>parseFloat\<close> makes of the string is the same.
\<close>

definition large_digits :: "real \<Rightarrow> string" where
  "large_digits x = digits_of (nat \<lfloor>x\<rfloor>)"

text \<open>
  \<^verbatim>\<open>toFixed\<close> throws a RangeError for a digit count outside 0 to 100. A negative
  number gets a minus sign; the negative zero does not.
\<close>

definition toFixed :: "double \<Rightarrow> int \<Rightarrow> js_error + string" where
  "toFixed x fractionDigits =
     (if fractionDigits < 0 \<or> 100 < fractionDigits then Inl RangeError
      else Inr (case x of
          NaN \<Rightarrow> ''NaN''
        | Infinity s \<Rightarrow> (if s then ''-Infinity'' else ''Infinity'')
        | Fin s m \<Rightarrow>
            (if s \<and> 0 < m then ''-'' else []) @
            (if 10 ^ 21 \<le> m then large_digits m else fixed_digits m (nat fractionDigits))))"

subsection \<open>parseFloat\<close>

text \<open>
  \<^verbatim>\<open>parseFloat\<close> skips leading white space and reads the longest prefix that is a
  decimal literal: an optional sign, then \<^verbatim>\<open>Infinity\<close> or digits with an optional
  fraction and an optional exponent. What follows the literal is ignored. When there
  is no such prefix the result is \<open>NaN\<close>. The decimal value is rounded to the nearest
  binary64 number. (ECMAScript lets an implementation drop the digits after the 20th
  significant one first; the engines in use read the exact value, as the model does.)
\<close>

definition is_ws :: "char \<Rightarrow> bool" where
  "is_ws c \<longleftrightarrow> (of_char c :: nat) \<in> {9, 10, 11, 12, 13, 32, 160}"

text \<open>
  The exponent part at the head of a string: \<^verbatim>\<open>e\<close> or \<^verbatim>\<open>E\<close>, an optional sign
  and at least one digit. Its value is 0 when there is no exponent part.
\<close>

definition signed_integer :: "string \<Rightarrow> int option" where
  "signed_integer r =
     (let neg = (r \<noteq> [] \<and> hd r = CHR ''-'');
          r' = (if r \<noteq> [] \<and> (hd r = CHR ''-'' \<or> hd r = CHR ''+'') then tl r else r);
          ds = takeWhile is_digit r'
      in if ds = [] then None
         else Some (if neg then - int (digits_val ds) else int (digits_val ds)))"

definition exponent_part :: "string \<Rightarrow> int" where
  "exponent_part r =
     (case r of
        [] \<Rightarrow> 0
      | c # r' \<Rightarrow>
          if c = CHR ''e'' \<or> c = CHR ''E''
          then (case signed_integer r' of None \<Rightarrow> 0 | Some e \<Rightarrow> e)
          else 0)"

definition str_unsigned_decimal :: "bool \<Rightarrow> string \<Rightarrow> double" where
  "str_unsigned_decimal s t =
     (if take 8 t = ''Infinity'' then Infinity s
      else
        (let ip = takeWhile is_digit t;
             r = dropWhile is_digit t;
             has_point = (r \<noteq> [] \<and> hd r = CHR ''.'');
             fp = (if has_point then takeWhile is_digit (tl r) else []);
             r' = (if has_point then dropWhile is_digit (tl r) else r)
         in if ip = [] \<and> fp = [] then NaN
            else round_to_double s
              ((real (digits_val ip) + real (digits_val fp) / 10 ^ length fp)
                 * pow10 (exponent_part r'))))"

definition parseFloat :: "string \<Rightarrow> double" where
  "parseFloat str =
     (let t = dropWhile is_ws str
      in case t of
           [] \<Rightarrow> NaN
         | c # r \<Rightarrow>
             if c = CHR ''-'' then str_unsigned_decimal True r
             else if c = CHR ''+'' then str_unsigned_decimal False r
             else str_unsigned_decimal False t)"

section \<open>The page's state and functions (Home.tsx)\<close>

record form_data =
  salinity :: double
  temperature :: double
  pH :: double
  turbidity :: double
  membraneArea :: double
  foulingFactor :: double

text \<open>\<open>predictedPressure\<close> is \<^verbatim>\<open>number | null\<close>: \<open>None\<close> is \<^verbatim>\<open>null\<close>.\<close>

record home_state =
  formData :: form_data
  predictedPressure :: "double option"

definition initial_formData :: form_data where
  "initial_formData =
     \<lparr>salinity = lit 0.68, temperature = lit 22, pH = lit 7.7, turbidity = lit 5.2,
      membraneArea = lit 50, foulingFactor = lit 0.1\<rparr>"

definition initial_state :: home_state where
  "initial_state = \<lparr>formData = initial_formData, predictedPressure = None\<rparr>"

text \<open>
  \<^verbatim>\<open>ensureNumber\<close>, on the text of an input field. (Its second parameter defaults to
  0; every call of the page passes it.)
\<close>

definition ensureNumber :: "string \<Rightarrow> double \<Rightarrow> double" where
  "ensureNumber v defaultValue =
     (let num = parseFloat v in if isNaN num then defaultValue else num)"

text \<open>The six \<^verbatim>\<open>onChange\<close> handlers of the form, each with its default.\<close>

definition onChange_salinity :: "string \<Rightarrow> home_state \<Rightarrow> home_state" where
  "onChange_salinity v st =
     st\<lparr>formData := (formData st)\<lparr>salinity := ensureNumber v (lit 0.68)\<rparr>\<rparr>"

definition onChange_temperature :: "string \<Rightarrow> home_state \<Rightarrow> home_state" where
  "onChange_temperature v st =
     st\<lparr>formData := (formData st)\<lparr>temperature := ensureNumber v (lit 22)\<rparr>\<rparr>"

definition onChange_pH :: "string \<Rightarrow> home_state \<Rightarrow> home_state" where
  "onChange_pH v st =
     st\<lparr>formData := (formData st)\<lparr>pH := ensureNumber v (lit 7.7)\<rparr>\<rparr>"

definition onChange_turbidity :: "string \<Rightarrow> home_state \<Rightarrow> home_state" where
  "onChange_turbidity v st =
     st\<lparr>formData := (formData st)\<lparr>turbidity := ensureNumber v (lit 5.2)\<rparr>\<rparr>"

definition onChange_membraneArea :: "string \<Rightarrow> home_state \<Rightarrow> home_state" where
  "onChange_membraneArea v st =
     st\<lparr>formData := (formData st)\<lparr>membraneArea := ensureNumber v (lit 50)\<rparr>\<rparr>"

definition onChange_foulingFactor :: "string \<Rightarrow> home_state \<Rightarrow> home_state" where
  "onChange_foulingFactor v st =
     st\<lparr>formData := (formData st)\<lparr>foulingFactor := ensureNumber v (lit 0.1)\<rparr>\<rparr>"

text \<open>
  \<^verbatim>\<open>calculateMinimumPressure\<close> reads \<open>formData\<close> and stores the predicted pressure.
  The only operation of its body that can throw is \<^verbatim>\<open>toFixed\<close>.
\<close>

definition calculateMinimumPressure :: "home_state \<Rightarrow> js_error + home_state" where
  "calculateMinimumPressure st =
     (let R = lit 0.083145;
          T_K = fadd (temperature (formData st)) (lit 273.15);
          vantHoffFactor = lit 2;
          osmotic_pressure = fmul (fmul (fmul vantHoffFactor (salinity (formData st))) R) T_K;
          operational_pressure = fmul osmotic_pressure (lit 1.6);
          viscosity_adjustment =
            fsub (lit 1) (fmul (lit 0.004) (fsub (temperature (formData st)) (lit 25)));
          pressure_after_temp = fmul operational_pressure viscosity_adjustment;
          fouling_penalty = fmul (lit 32) (foulingFactor (formData st));
          turbidity_penalty = fmul (lit 2.5) (turbidity (formData st));
          optimal_pH = lit 7.75;
          pH_penalty = fmul (lit 6.0) (Math_abs (fsub (pH (formData st)) optimal_pH));
          area_scaling_factor = fdiv (lit 7.0) (Math_sqrt (membraneArea (formData st)));
          predicted_pressure =
            fadd (fmul (fadd (fadd pressure_after_temp turbidity_penalty) pH_penalty)
                    area_scaling_factor)
              fouling_penalty
      in case toFixed predicted_pressure 2 of
           Inl e \<Rightarrow> Inl e
         | Inr str \<Rightarrow> Inr (st\<lparr>predictedPressure := Some (parseFloat str)\<rparr>))"

text \<open>
  The local constants of \<^verbatim>\<open>calculateMinimumPressure\<close>, each as a function of the form
  data, and the rounding of its last line.
\<close>

definition T_K :: "form_data \<Rightarrow> double" where
  "T_K fd = fadd (temperature fd) (lit 273.15)"

definition osmotic_pressure :: "form_data \<Rightarrow> double" where
  "osmotic_pressure fd = fmul (fmul (fmul (lit 2) (salinity fd)) (lit 0.083145)) (T_K fd)"

definition operational_pressure :: "form_data \<Rightarrow> double" where
  "operational_pressure fd = fmul (osmotic_pressure fd) (lit 1.6)"

definition viscosity_adjustment :: "form_data \<Rightarrow> double" where
  "viscosity_adjustment fd = fsub (lit 1) (fmul (lit 0.004) (fsub (temperature fd) (lit 25)))"

definition pressure_after_temp :: "form_data \<Rightarrow> double" where
  "pressure_after_temp fd = fmul (operational_pressure fd) (viscosity_adjustment fd)"

definition fouling_penalty :: "form_data \<Rightarrow> double" where
  "fouling_penalty fd = fmul (lit 32) (foulingFactor fd)"

definition turbidity_penalty :: "form_data \<Rightarrow> double" where
  "turbidity_penalty fd = fmul (lit 2.5) (turbidity fd)"

definition pH_penalty :: "form_data \<Rightarrow> double" where
  "pH_penalty fd = fmul (lit 6.0) (Math_abs (fsub (pH fd) (lit 7.75)))"

definition area_scaling_factor :: "form_data \<Rightarrow> double" where
  "area_scaling_factor fd = fdiv (lit 7.0) (Math_sqrt (membraneArea fd))"

definition predicted_pressure :: "form_data \<Rightarrow> double" where
  "predicted_pressure fd =
     fadd (fmul (fadd (fadd (pressure_after_temp fd) (turbidity_penalty fd)) (pH_penalty fd))
             (area_scaling_factor fd))
       (fouling_penalty fd)"

text \<open>
  The number the last line stores: \<^verbatim>\<open>parseFloat(predicted_pressure.toFixed(2))\<close>.
\<close>

definition rounded :: "double \<Rightarrow> double" where
  "rounded x = (case toFixed x 2 of Inl e \<Rightarrow> NaN | Inr str \<Rightarrow> parseFloat str)"

text \<open>
  The predictor as a function of the conditions: the number that
  \<^verbatim>\<open>calculateMinimumPressure\<close> stores when the form holds them (\<open>None\<close> if it threw).
\<close>

definition predict :: "form_data \<Rightarrow> double option" where
  "predict fd =
     (case calculateMinimumPressure \<lparr>formData = fd, predictedPressure = None\<rparr> of
        Inl e \<Rightarrow> None
      | Inr st \<Rightarrow> predictedPressure st)"

section \<open>The specification's pipeline\<close>

text \<open>
  The last step of the specification, rounding to 2 decimal places: the multiple of
  0.01 nearest to the value (of two, the one away from zero), as the binary64 number
  nearest to it. \<open>NaN\<close> and the infinities stay as they are.
\<close>

definition round_2dp :: "double \<Rightarrow> double" where
  "round_2dp x =
     (case x of
        NaN \<Rightarrow> NaN
      | Infinity s \<Rightarrow> Infinity s
      | Fin s m \<Rightarrow> round_to_double (s \<and> 0 < m) (of_int \<lfloor>m * 100 + 1 / 2\<rfloor> / 100))"

text \<open>
  The eight steps of the specification's algorithm in its own names, from \<open>T_K\<close> to
  \<open>predicted\<close>: the turbidity and pH penalties are added before the area scaling, the
  fouling penalty after it, and the result is rounded to 2 decimal places.
\<close>

definition spec_predict :: "form_data \<Rightarrow> double" where
  "spec_predict c =
     (let T_K = fadd (temperature c) (lit 273.15);
          osmotic = fmul (fmul (fmul (lit 2) (salinity c)) (lit 0.083145)) T_K;
          operational = fmul osmotic (lit 1.6);
          viscosity_adj = fsub (lit 1) (fmul (lit 0.004) (fsub (temperature c) (lit 25)));
          after_temp = fmul operational viscosity_adj;
          fouling_penalty = fmul (lit 32) (foulingFactor c);
          turbidity_penalty = fmul (lit 2.5) (turbidity c);
          pH_penalty = fmul (lit 6.0) (Math_abs (fsub (pH c) (lit 7.75)));
          area_scale = fdiv (lit 7.0) (Math_sqrt (membraneArea c));
          predicted =
            fadd (fmul (fadd (fadd after_temp turbidity_penalty) pH_penalty) area_scale)
              fouling_penalty
      in round_2dp predicted)"

section \<open>Properties of the arithmetic\<close>

subsection \<open>Powers of two and the binary exponent\<close>

lemma pow2_powr: "pow2 k = 2 powr (of_int k)"
  by (simp add: pow2_def powr_realpow [symmetric] powr_minus field_simps)

lemma pow2_pos: "0 < pow2 k"
  by (simp add: pow2_powr)

lemma pow2_add: "pow2 (a + b) = pow2 a * pow2 b"
  by (simp add: pow2_powr powr_add)

lemma pow2_le_iff: "pow2 a \<le> pow2 b \<longleftrightarrow> a \<le> b"
  by (simp add: pow2_powr)

lemma pow2_less_iff: "pow2 a < pow2 b \<longleftrightarrow> a < b"
  by (simp add: pow2_powr)

lemma pow2_nat: "0 \<le> k \<Longrightarrow> pow2 k = 2 ^ nat k"
  by (simp add: pow2_def)

lemma ilog2_bounds_ge1:
  assumes "1 \<le> m"
  shows "pow2 (ilog2 m) \<le> m \<and> m < pow2 (ilog2 m + 1)"
proof -
  define n where "n = \<lfloor>m\<rfloor>"
  have n1: "1 \<le> n" using assms by (simp add: n_def le_floor_iff)
  then have b1: "1 \<le> bitlen n" by (auto simp: bitlen_alt_def)
  have bb: "2 ^ nat (bitlen n - 1) \<le> n" "n < 2 ^ nat (bitlen n)"
    using bitlen_bounds [of n] n1 by auto
  have il: "ilog2 m = bitlen n - 1" using assms by (simp add: ilog2_def n_def)
  have "(2::real) ^ nat (bitlen n - 1) \<le> real_of_int n"
    using bb(1) of_int_le_iff [of "2 ^ nat (bitlen n - 1)" n, where ?'a = real] by simp
  also have "real_of_int n \<le> m" by (simp add: n_def)
  finally have lo: "pow2 (ilog2 m) \<le> m" using b1 by (simp add: il pow2_nat)
  have "n + 1 \<le> 2 ^ nat (bitlen n)" using bb(2) by simp
  then have "real_of_int (n + 1) \<le> (2::real) ^ nat (bitlen n)"
    using of_int_le_iff [of "n + 1" "2 ^ nat (bitlen n)", where ?'a = real] by simp
  moreover have "m < real_of_int (n + 1)" by (simp add: n_def)
  ultimately have hi: "m < pow2 (ilog2 m + 1)" using b1 by (simp add: il pow2_nat)
  show ?thesis using lo hi by simp
qed

lemma ilog2_bounds_lt1:
  assumes "0 < m" "m < 1"
  shows "pow2 (ilog2 m) \<le> m \<and> m < pow2 (ilog2 m + 1)"
proof -
  define t where "t = 1 / m"
  define j where "j = \<lceil>t\<rceil> - 1"
  have t1: "1 < t" using assms by (simp add: t_def)
  have j1: "1 \<le> j" using t1 by (simp add: j_def less_ceiling_iff)
  then have b1: "1 \<le> bitlen j" by (auto simp: bitlen_alt_def)
  have bb: "2 ^ nat (bitlen j - 1) \<le> j" "j < 2 ^ nat (bitlen j)"
    using bitlen_bounds [of j] j1 by auto
  have il: "ilog2 m = - bitlen j" using assms by (simp add: ilog2_def j_def t_def)
  have "j + 1 \<le> 2 ^ nat (bitlen j)" using bb(2) by simp
  then have "real_of_int (j + 1) \<le> (2::real) ^ nat (bitlen j)"
    using of_int_le_iff [of "j + 1" "2 ^ nat (bitlen j)", where ?'a = real] by simp
  moreover have "t \<le> real_of_int (j + 1)" by (simp add: j_def)
  ultimately have "t \<le> 2 ^ nat (bitlen j)" by linarith
  then have "1 \<le> m * 2 ^ nat (bitlen j)" using assms by (simp add: t_def field_simps)
  then have lo: "pow2 (ilog2 m) \<le> m" using b1 by (simp add: il pow2_def field_simps)
  have "(2::real) ^ nat (bitlen j - 1) \<le> real_of_int j"
    using bb(1) of_int_le_iff [of "2 ^ nat (bitlen j - 1)" j, where ?'a = real] by simp
  moreover have "real_of_int j < t" by (simp add: j_def) linarith
  ultimately have "2 ^ nat (bitlen j - 1) < t" by linarith
  then have lt: "m * 2 ^ nat (bitlen j - 1) < 1" using assms by (simp add: t_def field_simps)
  have hi: "m < pow2 (ilog2 m + 1)"
  proof (cases "bitlen j = 1")
    case True
    then show ?thesis using assms by (simp add: il pow2_def)
  next
    case False
    then have "1 < bitlen j" using b1 by simp
    then have "pow2 (ilog2 m + 1) = 1 / 2 ^ nat (bitlen j - 1)"
      by (simp add: il pow2_def)
    moreover have "m < 1 / 2 ^ nat (bitlen j - 1)" using lt by (simp add: field_simps)
    ultimately show ?thesis by simp
  qed
  show ?thesis using lo hi by simp
qed

lemma ilog2_bounds:
  assumes "0 < m"
  shows "pow2 (ilog2 m) \<le> m \<and> m < pow2 (ilog2 m + 1)"
  using ilog2_bounds_ge1 [of m] ilog2_bounds_lt1 [of m] assms by (cases "1 \<le> m") auto

lemma ilog2_unique:
  assumes "pow2 k \<le> m" "m < pow2 (k + 1)"
  shows "ilog2 m = k"
proof -
  have "0 < m" using assms(1) pow2_pos [of k] by linarith
  then have b: "pow2 (ilog2 m) \<le> m" "m < pow2 (ilog2 m + 1)"
    using ilog2_bounds by auto
  have "pow2 k < pow2 (ilog2 m + 1)" using assms(1) b(2) by linarith
  then have "k < ilog2 m + 1" by (simp add: pow2_less_iff)
  moreover have "pow2 (ilog2 m) < pow2 (k + 1)" using assms(2) b(1) by linarith
  then have "ilog2 m < k + 1" by (simp add: pow2_less_iff)
  ultimately show ?thesis by simp
qed

subsection \<open>Rounding to the nearest integer\<close>

lemma round_half_even_eqI:
  assumes "\<bar>x - of_int n\<bar> < 1 / 2"
  shows "round_half_even x = n"
proof (cases "of_int n \<le> x")
  case True
  then have "\<lfloor>x\<rfloor> = n" using assms by (intro floor_unique) auto
  then show ?thesis using assms True by (simp add: round_half_even_def)
next
  case False
  then have "\<lfloor>x\<rfloor> = n - 1" using assms by (intro floor_unique) auto
  then show ?thesis using assms False by (simp add: round_half_even_def)
qed

lemma round_half_even_tie:
  assumes "x = of_int n + 1 / 2"
  shows "round_half_even x = (if even n then n else n + 1)"
proof -
  have "\<lfloor>x\<rfloor> = n" using assms by (intro floor_unique) auto
  then show ?thesis using assms by (simp add: round_half_even_def)
qed

lemma round_half_even_of_int: "round_half_even (of_int n) = n"
  by (rule round_half_even_eqI) simp

lemma round_half_even_lower: "x - 1 / 2 \<le> of_int (round_half_even x)"
  unfolding round_half_even_def Let_def by (auto simp: not_less) linarith+

lemma round_half_even_upper: "of_int (round_half_even x) \<le> x + 1 / 2"
  unfolding round_half_even_def Let_def by (auto simp: not_less) linarith+

lemma round_half_even_mono:
  assumes "x \<le> y"
  shows "round_half_even x \<le> round_half_even y"
proof (rule ccontr)
  assume "\<not> round_half_even x \<le> round_half_even y"
  then have gt: "round_half_even y + 1 \<le> round_half_even x" by simp
  then have "real_of_int (round_half_even y) + 1 \<le> real_of_int (round_half_even x)"
    by linarith
  moreover note round_half_even_upper [of x] round_half_even_lower [of y] assms
  ultimately have eq: "y = x" "real_of_int (round_half_even x) = x + 1 / 2"
    "real_of_int (round_half_even y) = y - 1 / 2"
    by linarith+
  then show False using gt by simp
qed

subsection \<open>Rounding a magnitude\<close>

lemma quantum_exp_normal:
  assumes "pow2 k \<le> m" "m < pow2 (k + 1)" "- 1022 \<le> k"
  shows "quantum_exp m = k - 52"
proof -
  have "pow2 (- 1022) \<le> pow2 k" using assms(3) by (simp add: pow2_le_iff)
  then have "\<not> m < pow2 (- 1022)" using assms(1) by linarith
  then show ?thesis using ilog2_unique [OF assms(1,2)] by (simp add: quantum_exp_def)
qed

lemma quantum_exp_subnormal: "m < pow2 (- 1022) \<Longrightarrow> quantum_exp m = - 1074"
  by (simp add: quantum_exp_def)

lemma quantum_exp_ge: "- 1074 \<le> quantum_exp m"
proof (cases "m < pow2 (- 1022)")
  case True
  then show ?thesis by (simp add: quantum_exp_def)
next
  case False
  then have le: "pow2 (- 1022) \<le> m" by simp
  then have "0 < m" using pow2_pos [of "- 1022"] by linarith
  then have "m < pow2 (ilog2 m + 1)" using ilog2_bounds by simp
  then have "pow2 (- 1022) < pow2 (ilog2 m + 1)" using le by linarith
  then have "- 1022 < ilog2 m + 1" by (simp add: pow2_less_iff)
  then show ?thesis using False by (simp add: quantum_exp_def)
qed

text \<open>A magnitude lies below \<open>2^53\<close> quanta, and a normal one at or above \<open>2^52\<close>.\<close>

lemma quantum_upper:
  assumes "0 \<le> m"
  shows "m < pow2 (quantum_exp m + 53)"
proof (cases "m < pow2 (- 1022)")
  case True
  have "pow2 (- 1022) < pow2 (- 1021)" by (simp add: pow2_less_iff)
  then show ?thesis using True by (simp add: quantum_exp_def)
next
  case False
  then have "0 < m" using pow2_pos [of "- 1022"] by linarith
  then have "m < pow2 (ilog2 m + 1)" using ilog2_bounds by simp
  then show ?thesis using False by (simp add: quantum_exp_def add.commute)
qed

lemma quantum_lower:
  assumes "pow2 (- 1022) \<le> m"
  shows "pow2 (quantum_exp m + 52) \<le> m"
proof -
  have "0 < m" using assms pow2_pos [of "- 1022"] by linarith
  then have "pow2 (ilog2 m) \<le> m" using ilog2_bounds by simp
  then show ?thesis using assms by (simp add: quantum_exp_def)
qed

lemma quantum_exp_mono:
  assumes "0 \<le> m" "m \<le> m'"
  shows "quantum_exp m \<le> quantum_exp m'"
proof (cases "m' < pow2 (- 1022)")
  case True
  then show ?thesis using assms by (simp add: quantum_exp_def)
next
  case False
  then have n': "pow2 (- 1022) \<le> m'" by simp
  show ?thesis
  proof (cases "m < pow2 (- 1022)")
    case True
    then show ?thesis using quantum_exp_ge [of m'] by (simp add: quantum_exp_def)
  next
    case False
    then have n: "pow2 (- 1022) \<le> m" by simp
    have "pow2 (quantum_exp m + 52) \<le> m" using quantum_lower [OF n] .
    also have "m \<le> m'" by fact
    also have "m' < pow2 (quantum_exp m' + 53)"
      using quantum_upper [of m'] assms by simp
    finally have "quantum_exp m + 52 < quantum_exp m' + 53" by (simp add: pow2_less_iff)
    then show ?thesis by simp
  qed
qed

lemma round_mag_0: "round_mag 0 = 0"
  by (simp add: round_mag_def round_half_even_def)

lemma round_mag_nonneg:
  assumes "0 \<le> m"
  shows "0 \<le> round_mag m"
proof -
  have "0 \<le> m / pow2 (quantum_exp m)" using assms pow2_pos [of "quantum_exp m"] by simp
  then have "round_half_even 0 \<le> round_half_even (m / pow2 (quantum_exp m))"
    by (rule round_half_even_mono)
  then have "0 \<le> round_half_even (m / pow2 (quantum_exp m))"
    using round_half_even_of_int [of 0] by simp
  then show ?thesis using pow2_pos [of "quantum_exp m"] by (simp add: round_mag_def)
qed

lemma round_mag_upper:
  assumes "0 \<le> m"
  shows "round_mag m \<le> pow2 (quantum_exp m + 53)"
proof -
  let ?q = "pow2 (quantum_exp m)"
  have q: "0 < ?q" by (rule pow2_pos)
  have "m / ?q \<le> pow2 53" using quantum_upper [OF assms] q by (simp add: pow2_add field_simps)
  also have "pow2 53 = of_int (2 ^ 53)" by (simp add: pow2_def)
  finally have "round_half_even (m / ?q) \<le> round_half_even (of_int (2 ^ 53))"
    by (rule round_half_even_mono)
  then have "round_half_even (m / ?q) \<le> 2 ^ 53" by (simp only: round_half_even_of_int)
  then have "real_of_int (round_half_even (m / ?q)) \<le> pow2 53"
    using of_int_le_iff [of "round_half_even (m / ?q)" "2 ^ 53", where ?'a = real]
    by (simp add: pow2_def)
  then show ?thesis using q by (simp add: round_mag_def pow2_add field_simps)
qed

lemma round_mag_lower:
  assumes "pow2 (- 1022) \<le> m"
  shows "pow2 (quantum_exp m + 52) \<le> round_mag m"
proof -
  let ?q = "pow2 (quantum_exp m)"
  have q: "0 < ?q" by (rule pow2_pos)
  have "pow2 52 \<le> m / ?q" using quantum_lower [OF assms] q by (simp add: pow2_add field_simps)
  moreover have "pow2 52 = of_int (2 ^ 52)" by (simp add: pow2_def)
  ultimately have "round_half_even (of_int (2 ^ 52)) \<le> round_half_even (m / ?q)"
    using round_half_even_mono [of "of_int (2 ^ 52)" "m / ?q"] by simp
  then have "2 ^ 52 \<le> round_half_even (m / ?q)" by (simp only: round_half_even_of_int)
  then have "pow2 52 \<le> real_of_int (round_half_even (m / ?q))"
    using of_int_le_iff [of "2 ^ 52" "round_half_even (m / ?q)", where ?'a = real]
    by (simp add: pow2_def)
  then show ?thesis using q by (simp add: round_mag_def pow2_add field_simps)
qed

lemma round_mag_mono:
  assumes "0 \<le> m" "m \<le> m'"
  shows "round_mag m \<le> round_mag m'"
proof (cases "quantum_exp m = quantum_exp m'")
  case True
  let ?q = "pow2 (quantum_exp m)"
  have q: "0 < ?q" by (rule pow2_pos)
  have "m / ?q \<le> m' / ?q" using assms q by (simp add: divide_right_mono)
  then have "round_half_even (m / ?q) \<le> round_half_even (m' / ?q)"
    by (rule round_half_even_mono)
  then have "real_of_int (round_half_even (m / ?q)) \<le> real_of_int (round_half_even (m' / ?q))"
    by linarith
  then show ?thesis using q True by (simp add: round_mag_def mult_right_mono)
next
  case False
  then have lt: "quantum_exp m + 1 \<le> quantum_exp m'"
    using quantum_exp_mono [OF assms] by simp
  have "- 1074 < quantum_exp m'" using lt quantum_exp_ge [of m] by simp
  then have n': "pow2 (- 1022) \<le> m'" by (auto simp: quantum_exp_def split: if_splits)
  have "round_mag m \<le> pow2 (quantum_exp m + 53)" using round_mag_upper assms by simp
  also have "\<dots> \<le> pow2 (quantum_exp m' + 52)" using lt by (simp add: pow2_le_iff)
  also have "\<dots> \<le> round_mag m'" using round_mag_lower [OF n'] .
  finally show ?thesis .
qed

text \<open>Evaluating a rounding: the binary exponent \<open>k\<close> and the significand \<open>n\<close> are given.\<close>

lemma round_mag_normal:
  assumes "pow2 k \<le> m" "m < pow2 (k + 1)" "- 1022 \<le> k"
  shows "round_mag m = of_int (round_half_even (m / pow2 (k - 52))) * pow2 (k - 52)"
  using quantum_exp_normal [OF assms] by (simp add: round_mag_def)

lemma round_mag_subnormal:
  assumes "m < pow2 (- 1022)"
  shows "round_mag m = of_int (round_half_even (m / pow2 (- 1074))) * pow2 (- 1074)"
  using quantum_exp_subnormal [OF assms] by (simp add: round_mag_def)

lemma round_to_double_eqI:
  assumes "pow2 k \<le> m" "m < pow2 (k + 1)" "- 1022 \<le> k"
    and "\<bar>m / pow2 (k - 52) - of_int n\<bar> < 1 / 2"
    and "c = of_int n * pow2 (k - 52)" "c < pow2 1024"
  shows "round_to_double s m = Fin s c"
proof -
  have "round_mag m = c"
    using round_mag_normal [OF assms(1-3)] round_half_even_eqI [OF assms(4)] assms(5) by simp
  then show ?thesis using assms(6) by (simp add: round_to_double_def)
qed

lemma round_to_double_tieI:
  assumes "pow2 k \<le> m" "m < pow2 (k + 1)" "- 1022 \<le> k"
    and "m / pow2 (k - 52) = of_int n + 1 / 2"
    and "c = of_int (if even n then n else n + 1) * pow2 (k - 52)" "c < pow2 1024"
  shows "round_to_double s m = Fin s c"
proof -
  have "round_mag m = c"
    using round_mag_normal [OF assms(1-3)] round_half_even_tie [OF assms(4)] assms(5) by simp
  then show ?thesis using assms(6) by (simp add: round_to_double_def)
qed


lemma round_to_double_0: "round_to_double s 0 = Fin s 0"
  using pow2_pos [of 1024] by (simp add: round_to_double_def round_mag_0)

lemma round_to_double_sqrtI:
  assumes k: "(pow2 k)\<^sup>2 \<le> a" "a < (pow2 (k + 1))\<^sup>2" "- 1022 \<le> k"
    and n: "((of_int n - 1 / 2) * pow2 (k - 52))\<^sup>2 < a" "a < ((of_int n + 1 / 2) * pow2 (k - 52))\<^sup>2"
      "1 \<le> n"
    and c: "c = of_int n * pow2 (k - 52)" "c < pow2 1024"
  shows "round_to_double s (sqrt a) = Fin s c"
proof -
  let ?q = "pow2 (k - 52)"
  have q: "0 < ?q" by (rule pow2_pos)
  have lo: "pow2 k \<le> sqrt a" using k(1) by (rule real_le_rsqrt)
  have hi: "sqrt a < pow2 (k + 1)"
    using k(2) pow2_pos [of "k + 1"] by (intro real_less_lsqrt) auto
  have "(of_int n - 1 / 2) * ?q < sqrt a" using n(1) by (rule real_less_rsqrt)
  moreover have "sqrt a < (of_int n + 1 / 2) * ?q"
    using n(2,3) q by (intro real_less_lsqrt) auto
  ultimately have "of_int n - 1 / 2 < sqrt a / ?q" "sqrt a / ?q < of_int n + 1 / 2"
    using q by (simp_all add: field_simps)
  then have "\<bar>sqrt a / ?q - of_int n\<bar> < 1 / 2" by linarith
  with lo hi k(3) show ?thesis using c by (rule round_to_double_eqI)
qed

subsection \<open>Special values\<close>

lemma fmul_NaN_right: "fmul x NaN = NaN"
  by (cases x) simp_all

lemma fdiv_NaN_right: "fdiv x NaN = NaN"
  by (cases x) simp_all

lemma fadd_NaN_right: "fadd x NaN = NaN"
  by (cases x) simp_all

lemma fmul_Infinity_right_not_finite: "\<not> isFinite (fmul x (Infinity s))"
  by (cases x) simp_all

lemma fadd_not_finite_left: "\<not> isFinite x \<Longrightarrow> \<not> isFinite (fadd x y)"
  by (cases x; cases y) simp_all

lemma Math_sqrt_negative:
  assumes "is_double x" "js_lt x (Fin False 0)"
  shows "Math_sqrt x = NaN"
  using assms by (cases x) (auto split: if_splits)

subsection \<open>Rounding leaves binary64 values as they are\<close>

lemma round_mag_multiple:
  assumes "r = of_int N * pow2 e" "quantum_exp r \<le> e"
  shows "round_mag r = r"
proof -
  define d where "d = e - quantum_exp r"
  define q where "q = pow2 (quantum_exp r)"
  have d: "0 \<le> d" using assms(2) by (simp add: d_def)
  have q: "0 < q" by (simp add: q_def pow2_pos)
  have "pow2 e = q * pow2 d"
    using pow2_add [of "quantum_exp r" d] by (simp add: d_def q_def)
  moreover have "pow2 d = of_int (2 ^ nat d)" using d by (simp add: pow2_def)
  ultimately have r: "r = of_int (N * 2 ^ nat d) * q"
    using assms(1) by simp
  then have "r / q = of_int (N * 2 ^ nat d)" using q by simp
  then have "round_half_even (r / q) = N * 2 ^ nat d"
    by (simp only: round_half_even_of_int)
  then have "round_mag r = of_int (N * 2 ^ nat d) * q"
    by (simp add: round_mag_def q_def)
  then show ?thesis using r by simp
qed

lemma round_mag_pow2:
  assumes "- 1074 \<le> K"
  shows "round_mag (pow2 K) = pow2 K"
proof (rule round_mag_multiple [where N = 1 and e = K])
  show "pow2 K = of_int 1 * pow2 K" by simp
  show "quantum_exp (pow2 K) \<le> K"
  proof (cases "pow2 K < pow2 (- 1022)")
    case True
    then show ?thesis using assms by (simp add: quantum_exp_def)
  next
    case False
    then have "- 1022 \<le> K" by (simp add: pow2_less_iff)
    then have "quantum_exp (pow2 K) = K - 52"
      by (intro quantum_exp_normal) (simp_all add: pow2_less_iff)
    then show ?thesis by simp
  qed
qed

lemma round_mag_idem:
  assumes "0 \<le> m"
  shows "round_mag (round_mag m) = round_mag m"
proof (cases "round_mag m = pow2 (quantum_exp m + 53)")
  case True
  have "- 1074 \<le> quantum_exp m + 53" using quantum_exp_ge [of m] by simp
  then show ?thesis using True round_mag_pow2 by simp
next
  case False
  let ?r = "round_mag m"
  have lt: "?r < pow2 (quantum_exp m + 53)" using round_mag_upper [OF assms] False by simp
  have le: "quantum_exp ?r \<le> quantum_exp m"
  proof (cases "?r < pow2 (- 1022)")
    case True
    then show ?thesis using quantum_exp_ge [of m] by (simp add: quantum_exp_def)
  next
    case False
    then have "pow2 (quantum_exp ?r + 52) \<le> ?r" by (intro quantum_lower) simp
    then have "pow2 (quantum_exp ?r + 52) < pow2 (quantum_exp m + 53)" using lt by linarith
    then show ?thesis by (simp add: pow2_less_iff)
  qed
  show ?thesis
    by (rule round_mag_multiple [OF _ le, where N = "round_half_even (m / pow2 (quantum_exp m))"])
      (simp add: round_mag_def)
qed

lemma is_double_Fin_iff:
  "is_double (Fin s m) \<longleftrightarrow> 0 \<le> m \<and> round_mag m = m \<and> m < pow2 1024"
  by (auto simp: round_to_double_def)

declare is_double.simps(3) [simp del]

lemma is_double_Fin_0: "is_double (Fin s 0)"
  using pow2_pos [of 1024] by (simp add: is_double_Fin_iff round_mag_0)

lemma is_double_round:
  assumes "0 \<le> m"
  shows "is_double (round_to_double s m)"
proof (cases "pow2 1024 \<le> round_mag m")
  case True
  then show ?thesis by (simp add: round_to_double_def)
next
  case False
  then have "round_to_double s m = Fin s (round_mag m)" by (simp add: round_to_double_def)
  then show ?thesis
    using False round_mag_nonneg [OF assms] round_mag_idem [OF assms]
    by (simp add: is_double_Fin_iff)
qed

lemma is_double_lit: "0 \<le> r \<Longrightarrow> is_double (lit r)"
  by (simp add: lit_def is_double_round)

lemma is_double_fneg: "is_double x \<Longrightarrow> is_double (fneg x)"
  by (cases x) (simp_all add: is_double_Fin_iff)

lemma is_double_fadd: "is_double (fadd x y)"
  by (cases x; cases y) (simp_all add: Let_def is_double_round is_double_Fin_0)

lemma is_double_Math_abs: "is_double x \<Longrightarrow> is_double (Math_abs x)"
  by (cases x) (simp_all add: is_double_Fin_iff)

lemma is_double_fmul:
  assumes "is_double x" "is_double y"
  shows "is_double (fmul x y)"
proof (cases x)
  case (Fin s m)
  note x = this
  show ?thesis
  proof (cases y)
    case (Fin t n)
    have "0 \<le> m * n" using assms x Fin by (simp add: is_double_Fin_iff)
    then show ?thesis using x Fin by (simp add: is_double_round)
  qed (simp_all add: x)
next
  case NaN
  then show ?thesis by simp
next
  case (Infinity s)
  then show ?thesis by (cases y) simp_all
qed

lemma is_double_fdiv:
  assumes "is_double x" "is_double y"
  shows "is_double (fdiv x y)"
proof (cases x)
  case (Fin s m)
  note x = this
  show ?thesis
  proof (cases y)
    case (Fin t n)
    have "0 \<le> m / n" using assms x Fin by (simp add: is_double_Fin_iff)
    then show ?thesis using x Fin by (simp add: is_double_round)
  qed (simp_all add: x is_double_Fin_0)
next
  case NaN
  then show ?thesis by simp
next
  case (Infinity s)
  then show ?thesis by (cases y) simp_all
qed

lemma is_double_Math_sqrt: "is_double x \<Longrightarrow> is_double (Math_sqrt x)"
  by (cases x) (auto simp: is_double_round is_double_Fin_0 is_double_Fin_iff)

section \<open>Properties of the strings\<close>

subsection \<open>Digits\<close>

lemma digit_cases:
  assumes "d < 10"
  obtains "d = 0" | "d = 1" | "d = 2" | "d = 3" | "d = 4"
    | "d = 5" | "d = 6" | "d = 7" | "d = 8" | "d = (9::nat)"
  using assms by atomize_elim auto

lemma digit_val_digit_char: "d < 10 \<Longrightarrow> digit_val (digit_char d) = d"
  by (erule digit_cases) (simp_all add: digit_val_def digit_char_def)

lemma is_digit_digit_char: "d < 10 \<Longrightarrow> is_digit (digit_char d)"
  by (erule digit_cases) (simp_all add: is_digit_def digit_char_def)

lemma digits_of_digits: "c \<in> set (digits_of n) \<Longrightarrow> is_digit c"
proof (induction n rule: digits_of.induct)
  case (1 n)
  show ?case
  proof (cases "n < 10")
    case True
    then show ?thesis using "1.prems" by (simp add: digits_of.simps [of n] is_digit_digit_char)
  next
    case False
    then show ?thesis
      using "1.prems" "1.IH" by (auto simp: digits_of.simps [of n] is_digit_digit_char)
  qed
qed

lemma digits_of_nonempty: "digits_of n \<noteq> []"
  by (simp add: digits_of.simps [of n])

lemma foldl_digits:
  "foldl (\<lambda>a c. 10 * a + digit_val c) a ds =
     a * 10 ^ length ds + foldl (\<lambda>a c. 10 * a + digit_val c) 0 ds"
proof (induction ds arbitrary: a)
  case Nil
  show ?case by simp
next
  case (Cons c ds)
  show ?case
    using Cons.IH [of "10 * a + digit_val c"] Cons.IH [of "digit_val c"]
    by (simp add: algebra_simps)
qed

lemma digits_val_append:
  "digits_val (xs @ ys) = digits_val xs * 10 ^ length ys + digits_val ys"
  using foldl_digits [of "digits_val xs" ys] by (simp add: digits_val_def)

lemma digits_val_digits_of: "digits_val (digits_of n) = n"
proof (induction n rule: digits_of.induct)
  case (1 n)
  show ?case
  proof (cases "n < 10")
    case True
    then show ?thesis
      by (simp add: digits_of.simps [of n] digits_val_def digit_val_digit_char)
  next
    case False
    have "digits_val [digit_char (n mod 10)] = n mod 10"
      by (simp add: digits_val_def digit_val_digit_char)
    then show ?thesis
      using False "1.IH" by (simp add: digits_of.simps [of n] digits_val_append)
  qed
qed

lemma digits_val_zeros: "digits_val (replicate k CHR ''0'' @ ds) = digits_val ds"
proof -
  have "digits_val (replicate k CHR ''0'') = 0"
    by (induction k) (simp_all add: digits_val_def digit_val_def)
  then show ?thesis by (simp add: digits_val_append)
qed

lemma takeWhile_digits_stop:
  assumes "\<forall>c \<in> set ds. is_digit c" "rest = [] \<or> \<not> is_digit (hd rest)"
  shows "takeWhile is_digit (ds @ rest) = ds" "dropWhile is_digit (ds @ rest) = rest"
proof -
  have r: "takeWhile is_digit rest = []" "dropWhile is_digit rest = rest"
    using assms(2) by (cases rest; auto)+
  show "takeWhile is_digit (ds @ rest) = ds" using assms(1) r by (simp add: takeWhile_append2)
  show "dropWhile is_digit (ds @ rest) = rest" using assms(1) r by (simp add: dropWhile_append2)
qed

subsection \<open>Reading a decimal\<close>

lemma is_digit_not_special:
  assumes "is_digit c"
  shows "\<not> is_ws c" "c \<noteq> CHR ''-''" "c \<noteq> CHR ''+''" "c \<noteq> CHR ''.''" "c \<noteq> CHR ''I''"
    "c \<noteq> CHR ''e''" "c \<noteq> CHR ''E''"
  using assms by (auto simp: is_digit_def is_ws_def)

text \<open>
  Digits, optionally a point and more digits, and then a rest that neither continues
  the digits nor starts an exponent: the value read is that of the digits.
\<close>

lemma str_unsigned_decimal_point:
  assumes ab: "a \<noteq> [] \<or> b \<noteq> []" "\<forall>c \<in> set a. is_digit c" "\<forall>c \<in> set b. is_digit c"
    and rest: "rest = [] \<or> \<not> is_digit (hd rest) \<and> hd rest \<noteq> CHR ''e'' \<and> hd rest \<noteq> CHR ''E''"
  shows "str_unsigned_decimal s (a @ CHR ''.'' # b @ rest) =
     round_to_double s (real (digits_val a) + real (digits_val b) / 10 ^ length b)"
proof -
  define t where "t = a @ CHR ''.'' # b @ rest"
  have inf: "take 8 t \<noteq> ''Infinity''"
  proof (cases a)
    case Nil
    then show ?thesis by (simp add: t_def)
  next
    case (Cons c a')
    then have "is_digit c" using ab(2) by simp
    then show ?thesis using is_digit_not_special(5) [of c] Cons by (auto simp: t_def)
  qed
  have ip: "takeWhile is_digit t = a" "dropWhile is_digit t = CHR ''.'' # b @ rest"
    using takeWhile_digits_stop [of a "CHR ''.'' # b @ rest"] ab(2)
    by (simp_all add: is_digit_def t_def)
  have fp: "takeWhile is_digit (b @ rest) = b" "dropWhile is_digit (b @ rest) = rest"
    using takeWhile_digits_stop [of b rest] ab(3) rest by auto
  have ex: "exponent_part rest = 0"
    using rest by (cases rest) (auto simp: exponent_part_def)
  have ne: "(a = [] \<and> b = []) = False" using ab(1) by simp
  have "str_unsigned_decimal s t =
     round_to_double s (real (digits_val a) + real (digits_val b) / 10 ^ length b)"
    by (simp add: str_unsigned_decimal_def inf ip fp ex ne pow10_def Let_def)
  then show ?thesis by (simp only: t_def)
qed

lemma str_unsigned_decimal_digits:
  assumes a: "a \<noteq> []" "\<forall>c \<in> set a. is_digit c"
    and rest: "rest = [] \<or> \<not> is_digit (hd rest) \<and> hd rest \<noteq> CHR ''.'' \<and>
        hd rest \<noteq> CHR ''e'' \<and> hd rest \<noteq> CHR ''E''"
  shows "str_unsigned_decimal s (a @ rest) = round_to_double s (real (digits_val a))"
proof -
  define t where "t = a @ rest"
  have hd: "is_digit (hd a)" using a by (cases a) auto
  have inf: "take 8 t \<noteq> ''Infinity''"
    using a(1) is_digit_not_special(5) [OF hd] by (cases a) (auto simp: t_def)
  have ip: "takeWhile is_digit t = a" "dropWhile is_digit t = rest"
    using takeWhile_digits_stop [of a rest] a(2) rest by (auto simp: t_def)
  have np: "(rest \<noteq> [] \<and> hd rest = CHR ''.'') = False" using rest by auto
  have ex: "exponent_part rest = 0"
    using rest by (cases rest) (auto simp: exponent_part_def)
  have "str_unsigned_decimal s t = round_to_double s (real (digits_val a))"
    using a(1) by (simp add: str_unsigned_decimal_def inf ip np ex pow10_def Let_def digits_val_def)
  then show ?thesis by (simp only: t_def)
qed

lemma parseFloat_digit_first:
  assumes "t \<noteq> []" "is_digit (hd t)"
  shows "parseFloat t = str_unsigned_decimal False t"
proof -
  obtain c r where t: "t = c # r" using assms(1) by (cases t) auto
  then have c: "is_digit c" using assms(2) by simp
  show ?thesis
    using is_digit_not_special [OF c] by (simp add: parseFloat_def t)
qed

lemma parseFloat_minus: "parseFloat (CHR ''-'' # t) = str_unsigned_decimal True t"
  by (simp add: parseFloat_def is_ws_def)


subsection \<open>Reading a decimal literal with an exponent\<close>







subsection \<open>The stored value\<close>

text \<open>
  \<^verbatim>\<open>calculateMinimumPressure\<close> in terms of its local constants: \<^verbatim>\<open>toFixed(2)\<close> never
  throws, and a value that is not finite is stored as it is.
\<close>

lemma calculateMinimumPressure_locals:
  "calculateMinimumPressure st =
     (case toFixed (predicted_pressure (formData st)) 2 of
        Inl e \<Rightarrow> Inl e
      | Inr str \<Rightarrow> Inr (st\<lparr>predictedPressure := Some (parseFloat str)\<rparr>))"
  by (simp add: calculateMinimumPressure_def predicted_pressure_def pressure_after_temp_def
      operational_pressure_def osmotic_pressure_def T_K_def viscosity_adjustment_def
      fouling_penalty_def turbidity_penalty_def pH_penalty_def area_scaling_factor_def)

lemma parseFloat_NaN: "parseFloat ''NaN'' = NaN"
  by (simp add: parseFloat_def str_unsigned_decimal_def is_ws_def is_digit_def)

lemma parseFloat_Infinity: "parseFloat ''Infinity'' = Infinity False"
  by (simp add: parseFloat_def str_unsigned_decimal_def is_ws_def)

lemma parseFloat_minus_Infinity: "parseFloat ''-Infinity'' = Infinity True"
  by (simp add: parseFloat_def str_unsigned_decimal_def is_ws_def)

lemma rounded_not_finite: "\<not> isFinite x \<Longrightarrow> rounded x = x"
  by (cases x)
    (simp_all add: rounded_def toFixed_def parseFloat_NaN parseFloat_Infinity
      parseFloat_minus_Infinity)

lemma calculateMinimumPressure_rounded:
  "calculateMinimumPressure st =
     Inr (st\<lparr>predictedPressure := Some (rounded (predicted_pressure (formData st)))\<rparr>)"
  by (simp add: calculateMinimumPressure_locals rounded_def toFixed_def)

subsection \<open>What toFixed(2) writes and parseFloat reads back\<close>

lemma fixed_digits_2:
  obtains a b where "fixed_digits m 2 = a @ CHR ''.'' # b" "a \<noteq> []"
    "\<forall>c \<in> set a. is_digit c" "\<forall>c \<in> set b. is_digit c" "length b = 2"
    "digits_val a * 100 + digits_val b = nat \<lfloor>m * 100 + 1 / 2\<rfloor>"
proof -
  define n where "n = nat \<lfloor>m * 100 + 1 / 2\<rfloor>"
  define ds where "ds = digits_of n"
  define ds' where "ds' = (if length ds \<le> 2 then replicate (3 - length ds) CHR ''0'' @ ds else ds)"
  define a where "a = take (length ds' - 2) ds'"
  define b where "b = drop (length ds' - 2) ds'"
  have len: "3 \<le> length ds'" by (auto simp: ds'_def)
  have ab: "a @ b = ds'" by (simp add: a_def b_def)
  have z: "is_digit CHR ''0''" by (simp add: is_digit_def)
  have dig: "\<forall>c \<in> set ds'. is_digit c"
    using digits_of_digits [of _ n] z by (auto simp: ds'_def ds_def)
  have val: "digits_val ds' = n"
    by (simp add: ds'_def ds_def digits_val_zeros digits_val_digits_of)
  have 1: "fixed_digits m 2 = a @ CHR ''.'' # b"
    by (simp add: fixed_digits_def Let_def a_def b_def ds'_def ds_def n_def)
  have 2: "a \<noteq> []" using len by (auto simp: a_def)
  have 3: "\<forall>c \<in> set a. is_digit c" using dig ab by (metis Un_iff set_append)
  have 4: "\<forall>c \<in> set b. is_digit c" using dig ab by (metis Un_iff set_append)
  have 5: "length b = 2" using len by (simp add: b_def)
  have 6: "digits_val a * 100 + digits_val b = nat \<lfloor>m * 100 + 1 / 2\<rfloor>"
    using digits_val_append [of a b] val 5 by (simp add: ab n_def)
  show thesis using that 1 2 3 4 5 6 by blast
qed

lemma rounded_small:
  assumes "0 \<le> m" "m < 10 ^ 21"
  shows "rounded (Fin s m) = round_to_double (s \<and> 0 < m) (of_int \<lfloor>m * 100 + 1 / 2\<rfloor> / 100)"
proof -
  obtain a b where ab: "fixed_digits m 2 = a @ CHR ''.'' # b" "a \<noteq> []"
    "\<forall>c \<in> set a. is_digit c" "\<forall>c \<in> set b. is_digit c" "length b = 2"
    "digits_val a * 100 + digits_val b = nat \<lfloor>m * 100 + 1 / 2\<rfloor>"
    by (rule fixed_digits_2)
  have "0 \<le> \<lfloor>m * 100 + 1 / 2\<rfloor>" using assms(1) by simp
  then have "real (digits_val a * 100 + digits_val b) = of_int \<lfloor>m * 100 + 1 / 2\<rfloor>"
    using ab(6) by simp
  then have v: "real (digits_val a) + real (digits_val b) / 10 ^ length b =
      of_int \<lfloor>m * 100 + 1 / 2\<rfloor> / 100"
    using ab(5) by (simp add: field_simps)
  have p: "str_unsigned_decimal z (a @ CHR ''.'' # b) =
      round_to_double z (of_int \<lfloor>m * 100 + 1 / 2\<rfloor> / 100)" for z
    using str_unsigned_decimal_point [of a b "[]" z] ab(2,3,4) v by simp
  have hd: "a @ CHR ''.'' # b \<noteq> []" "is_digit (hd (a @ CHR ''.'' # b))"
    using ab(2,3) by (cases a; auto)+
  show ?thesis
  proof (cases "s \<and> 0 < m")
    case True
    then have "toFixed (Fin s m) 2 = Inr (CHR ''-'' # a @ CHR ''.'' # b)"
      using assms(2) by (simp add: toFixed_def ab(1))
    then show ?thesis using True p [of True] by (simp add: rounded_def parseFloat_minus)
  next
    case False
    then have "toFixed (Fin s m) 2 = Inr (a @ CHR ''.'' # b)"
      using assms(2) by (auto simp: toFixed_def ab(1))
    then have "rounded (Fin s m) = round_to_double False (of_int \<lfloor>m * 100 + 1 / 2\<rfloor> / 100)"
      using p [of False] parseFloat_digit_first [OF hd] by (simp add: rounded_def)
    moreover have "round_to_double (s \<and> 0 < m) y = round_to_double False y" for y
      using False by (cases s) auto
    ultimately show ?thesis by simp
  qed
qed

lemma rounded_large:
  assumes "10 ^ 21 \<le> m"
  shows "rounded (Fin s m) = round_to_double s (of_int \<lfloor>m\<rfloor>)"
proof -
  define ds where "ds = digits_of (nat \<lfloor>m\<rfloor>)"
  have m: "0 < m" using assms by (rule less_le_trans [rotated]) simp
  have ds: "ds \<noteq> []" "\<forall>c \<in> set ds. is_digit c"
    using digits_of_nonempty digits_of_digits by (auto simp: ds_def)
  have "0 \<le> \<lfloor>m\<rfloor>" using m by simp
  then have v: "real (digits_val ds) = of_int \<lfloor>m\<rfloor>"
    by (simp add: ds_def digits_val_digits_of)
  have p: "str_unsigned_decimal z ds = round_to_double z (of_int \<lfloor>m\<rfloor>)" for z
    using str_unsigned_decimal_digits [OF ds, of "[]" z] v by simp
  have hd: "is_digit (hd ds)" using ds by (cases ds) auto
  show ?thesis
  proof (cases s)
    case True
    then have "toFixed (Fin s m) 2 = Inr (CHR ''-'' # ds)"
      using assms m by (simp add: toFixed_def large_digits_def ds_def)
    then show ?thesis using True p [of True] by (simp add: rounded_def parseFloat_minus)
  next
    case False
    then have "toFixed (Fin s m) 2 = Inr ds"
      using assms by (simp add: toFixed_def large_digits_def ds_def)
    then show ?thesis
      using False p [of False] parseFloat_digit_first [OF ds(1) hd] by (simp add: rounded_def)
  qed
qed

text \<open>A binary64 magnitude from \<open>2^53\<close> on is an integer.\<close>

lemma is_double_large_int:
  assumes "is_double (Fin s m)" "pow2 53 \<le> m"
  shows "of_int \<lfloor>m\<rfloor> = m"
proof -
  define e where "e = quantum_exp m"
  have m: "0 \<le> m" "round_mag m = m" using assms(1) by (simp_all add: is_double_Fin_iff)
  have "m < pow2 (e + 53)" using quantum_upper [OF m(1)] by (simp add: e_def)
  then have "pow2 53 < pow2 (e + 53)" using assms(2) by linarith
  then have e: "0 \<le> e" by (simp add: pow2_less_iff)
  define N where "N = round_half_even (m / pow2 e) * 2 ^ nat e"
  have "m = of_int (round_half_even (m / pow2 e)) * pow2 e"
    using m(2) by (simp add: round_mag_def e_def)
  also have "\<dots> = of_int N"
    using e by (simp add: pow2_def N_def)
  finally have mN: "m = of_int N" .
  show ?thesis unfolding mN by simp
qed

lemma rounded_eq_round_2dp:
  assumes "is_double x"
  shows "rounded x = round_2dp x"
proof (cases x)
  case NaN
  then show ?thesis by (simp add: rounded_not_finite round_2dp_def)
next
  case (Infinity s)
  then show ?thesis by (simp add: rounded_not_finite round_2dp_def)
next
  case (Fin s m)
  then have m: "0 \<le> m" "is_double (Fin s m)" using assms by (simp_all add: is_double_Fin_iff)
  show ?thesis
  proof (cases "m < 10 ^ 21")
    case True
    then show ?thesis using m(1) Fin by (simp add: rounded_small round_2dp_def)
  next
    case False
    then have big: "(10::real) ^ 21 \<le> m" by simp
    have "pow2 53 \<le> (10::real) ^ 21" by (simp add: pow2_def)
    then have "pow2 53 \<le> m" using big by linarith
    then have i: "of_int \<lfloor>m\<rfloor> = m" by (rule is_double_large_int [OF m(2)])
    then obtain N where mN: "m = of_int N" by metis
    have f1: "\<lfloor>m\<rfloor> = N" unfolding mN by simp
    have f2: "\<lfloor>m * 100 + 1 / 2\<rfloor> = N * 100" unfolding mN by (intro floor_unique) simp_all
    have "of_int \<lfloor>m * 100 + 1 / 2\<rfloor> / 100 = (of_int \<lfloor>m\<rfloor> :: real)"
      unfolding f1 f2 by simp
    moreover have "0 < m" using big by (rule less_le_trans [rotated]) simp
    ultimately show ?thesis using big Fin by (simp add: rounded_large round_2dp_def)
  qed
qed

section \<open>Monotonicity\<close>

lemma no_decrease_iff: "no_decrease a b \<longleftrightarrow> isNaN a \<or> isNaN b \<or> js_le a b"
  by (cases a; cases b) (auto simp: no_decrease_def)

lemma no_decrease_NaN [simp]: "no_decrease NaN b" "no_decrease a NaN"
  by (simp_all add: no_decrease_iff)

lemma no_decrease_refl [simp]: "no_decrease a a"
  by (cases a) (simp_all add: no_decrease_def)

lemma js_lt_no_decrease: "js_lt a b \<Longrightarrow> no_decrease a b"
  by (cases a; cases b) (auto simp: no_decrease_def)

lemma no_decrease_bottom [simp]: "no_decrease (Infinity True) b"
  by (cases b) (simp_all add: no_decrease_def)

lemma no_decrease_top [simp]: "no_decrease a (Infinity False)"
  by (cases a) (simp_all add: no_decrease_def)

lemma no_decrease_simps [simp]:
  "no_decrease (Infinity s) (Infinity t) \<longleftrightarrow> s \<or> \<not> t"
  "no_decrease (Infinity s) (Fin t n) \<longleftrightarrow> s"
  "no_decrease (Fin s m) (Infinity t) \<longleftrightarrow> \<not> t"
  "no_decrease (Fin s m) (Fin t n) \<longleftrightarrow> signed_mag s m \<le> signed_mag t n"
  by (auto simp: no_decrease_def)

text \<open>Rounding keeps the order of the signed values.\<close>

lemma round_to_double_mono:
  assumes "0 \<le> m1" "0 \<le> m2" "signed_mag s1 m1 \<le> signed_mag s2 m2"
  shows "no_decrease (round_to_double s1 m1) (round_to_double s2 m2)"
proof -
  have r: "0 \<le> round_mag m1" "0 \<le> round_mag m2"
    using assms(1,2) by (simp_all add: round_mag_nonneg)
  have z: "round_to_double s 0 = Fin s 0" for s by (rule round_to_double_0)
  show ?thesis
  proof (cases s1; cases s2)
    assume s: "s1" "s2"
    then have "round_mag m2 \<le> round_mag m1" using assms by (simp add: round_mag_mono)
    then show ?thesis using s by (simp add: round_to_double_def)
  next
    assume s: "s1" "\<not> s2"
    then show ?thesis using r by (simp add: round_to_double_def)
  next
    assume s: "\<not> s1" "s2"
    then have "m1 = 0" "m2 = 0" using assms by simp_all
    then show ?thesis using s z by simp
  next
    assume s: "\<not> s1" "\<not> s2"
    then have "round_mag m1 \<le> round_mag m2" using assms by (simp add: round_mag_mono)
    then show ?thesis using s by (simp add: round_to_double_def)
  qed
qed

lemma round_to_double_not_NaN [simp]: "\<not> isNaN (round_to_double s m)"
  by (simp add: round_to_double_def)

lemma round_to_double_sign:
  "round_to_double s m = Infinity s \<or> round_to_double s m = Fin s (round_mag m)"
  by (simp add: round_to_double_def)

text \<open>The sum of two finite numbers is the rounding of the exact sum.\<close>

lemma fadd_Fin:
  obtains z where
    "fadd (Fin s m) (Fin t n) = round_to_double z \<bar>signed_mag s m + signed_mag t n\<bar>"
    "signed_mag z \<bar>signed_mag s m + signed_mag t n\<bar> = signed_mag s m + signed_mag t n"
proof (cases "signed_mag s m + signed_mag t n = 0")
  case True
  then show ?thesis
    using that [of "s \<and> t"] round_to_double_0 [of "s \<and> t"] by (simp add: Let_def)
next
  case False
  then show ?thesis
    using that [of "signed_mag s m + signed_mag t n < 0"] by (simp add: Let_def)
qed

lemma fadd_Fin_mono:
  assumes "signed_mag s1 m1 + signed_mag t1 n1 \<le> signed_mag s2 m2 + signed_mag t2 n2"
  shows "no_decrease (fadd (Fin s1 m1) (Fin t1 n1)) (fadd (Fin s2 m2) (Fin t2 n2))"
proof -
  obtain z1 where 1:
    "fadd (Fin s1 m1) (Fin t1 n1) = round_to_double z1 \<bar>signed_mag s1 m1 + signed_mag t1 n1\<bar>"
    "signed_mag z1 \<bar>signed_mag s1 m1 + signed_mag t1 n1\<bar> = signed_mag s1 m1 + signed_mag t1 n1"
    by (rule fadd_Fin)
  obtain z2 where 2:
    "fadd (Fin s2 m2) (Fin t2 n2) = round_to_double z2 \<bar>signed_mag s2 m2 + signed_mag t2 n2\<bar>"
    "signed_mag z2 \<bar>signed_mag s2 m2 + signed_mag t2 n2\<bar> = signed_mag s2 m2 + signed_mag t2 n2"
    by (rule fadd_Fin)
  show ?thesis
    unfolding 1(1) 2(1) by (rule round_to_double_mono) (simp_all only: 1(2) 2(2) assms abs_ge_zero)
qed

lemma fadd_right_mono:
  assumes "no_decrease y1 y2"
  shows "no_decrease (fadd x y1) (fadd x y2)"
proof (cases x)
  case NaN
  then show ?thesis by simp
next
  case (Infinity s)
  then show ?thesis using assms by (cases y1; cases y2) auto
next
  case (Fin s m)
  show ?thesis
  proof (cases y1)
    case NaN
    then show ?thesis by (simp add: fadd_NaN_right)
  next
    case (Infinity t)
    then show ?thesis using assms Fin by (cases y2; cases t) (simp_all del: fadd.simps(7))
  next
    case y1: (Fin t1 n1)
    show ?thesis
    proof (cases y2)
      case NaN
      then show ?thesis by (simp add: fadd_NaN_right)
    next
      case (Infinity t)
      then show ?thesis using assms Fin y1 by (cases t) simp_all
    next
      case y2: (Fin t2 n2)
      have "signed_mag t1 n1 \<le> signed_mag t2 n2"
        using assms y1 y2 by simp
      then show ?thesis unfolding Fin y1 y2 by (intro fadd_Fin_mono) simp
    qed
  qed
qed

lemma fadd_commute: "fadd x y = fadd y x"
  by (cases x; cases y) (auto simp: Let_def add.commute conj_commute)

lemma fadd_left_mono:
  assumes "no_decrease x1 x2"
  shows "no_decrease (fadd x1 y) (fadd x2 y)"
  using fadd_right_mono [OF assms, of y] by (simp add: fadd_commute)

text \<open>Multiplying by a number that is not negative keeps the order.\<close>

lemma fmul_Fin_mono:
  assumes "0 \<le> m1" "0 \<le> m2" "0 \<le> c" "signed_mag s1 m1 \<le> signed_mag s2 m2"
  shows "no_decrease (fmul (Fin False c) (Fin s1 m1)) (fmul (Fin False c) (Fin s2 m2))"
proof -
  have "c * signed_mag s1 m1 \<le> c * signed_mag s2 m2"
    using assms(3,4) by (rule mult_left_mono [rotated])
  then have "signed_mag s1 (c * m1) \<le> signed_mag s2 (c * m2)" by (simp split: if_splits)
  then show ?thesis using assms(1-3) by (simp add: round_to_double_mono)
qed

lemma fmul_commute: "fmul x y = fmul y x"
  by (cases x; cases y)
    (auto simp: mult.commute intro!: arg_cong2 [where f = round_to_double])

lemma fmul_left_const_mono:
  assumes "0 \<le> c" "is_double y1" "is_double y2" "no_decrease y1 y2"
  shows "no_decrease (fmul (Fin False c) y1) (fmul (Fin False c) y2)"
proof (cases y1)
  case NaN
  then show ?thesis by simp
next
  case (Infinity t)
  then show ?thesis using assms by (cases y2; cases t) (simp_all del: fmul.simps(7))
next
  case y1: (Fin s1 m1)
  show ?thesis
  proof (cases y2)
    case NaN
    then show ?thesis by (simp add: fmul_NaN_right)
  next
    case (Infinity t)
    then show ?thesis using assms y1 by (cases t) simp_all
  next
    case y2: (Fin s2 m2)
    have "0 \<le> m1" "0 \<le> m2" using assms(2,3) y1 y2 by (simp_all add: is_double_Fin_iff)
    moreover have "signed_mag s1 m1 \<le> signed_mag s2 m2"
      using assms(4) y1 y2 by simp
    ultimately show ?thesis unfolding y1 y2 using assms(1) by (intro fmul_Fin_mono)
  qed
qed

text \<open>The area scaling factor of a positive area is not negative.\<close>

lemma fmul_right_Infinity_mono:
  assumes "is_double x1" "is_double x2" "no_decrease x1 x2"
  shows "no_decrease (fmul x1 (Infinity False)) (fmul x2 (Infinity False))"
  using assms
  by (cases x1; cases x2) (auto simp: is_double_Fin_iff split: if_splits)

lemma fmul_right_mono:
  assumes "asf = Infinity False \<or> (\<exists>a. asf = Fin False a \<and> 0 \<le> a)"
    and "is_double x1" "is_double x2" "no_decrease x1 x2"
  shows "no_decrease (fmul x1 asf) (fmul x2 asf)"
proof (cases "asf = Infinity False")
  case True
  then show ?thesis using fmul_right_Infinity_mono assms(2-4) by simp
next
  case False
  then obtain a where a: "asf = Fin False a" "0 \<le> a" using assms(1) by auto
  show ?thesis
    using fmul_left_const_mono [OF a(2) assms(2-4)] by (simp add: a(1) fmul_commute)
qed

lemma round_2dp_mono:
  assumes "is_double x1" "is_double x2" "no_decrease x1 x2"
  shows "no_decrease (round_2dp x1) (round_2dp x2)"
proof (cases x1)
  case NaN
  then show ?thesis by (simp add: round_2dp_def)
next
  case (Infinity s)
  then show ?thesis using assms(3) by (cases x2; cases s) (simp_all add: round_2dp_def)
next
  case x1: (Fin s1 m1)
  show ?thesis
  proof (cases x2)
    case NaN
    then show ?thesis by (simp add: round_2dp_def)
  next
    case (Infinity t)
    then show ?thesis using assms(3) x1 by (cases t) (simp_all add: round_2dp_def)
  next
    case x2: (Fin s2 m2)
    define F where "F m = real_of_int \<lfloor>m * 100 + 1 / 2\<rfloor> / 100" for m :: real
    have m: "0 \<le> m1" "0 \<le> m2" using assms(1,2) x1 x2 by (simp_all add: is_double_Fin_iff)
    have F0: "0 \<le> F m" if "0 \<le> m" for m using that by (simp add: F_def)
    have Fm: "F m \<le> F m'" if "m \<le> m'" for m m'
      using that by (simp add: F_def divide_right_mono floor_mono)
    have le: "signed_mag s1 m1 \<le> signed_mag s2 m2" using assms(3) x1 x2 by simp
    have "signed_mag (s1 \<and> 0 < m1) (F m1) \<le> signed_mag (s2 \<and> 0 < m2) (F m2)"
    proof (cases "s1 \<and> 0 < m1"; cases "s2 \<and> 0 < m2")
      assume a: "s1 \<and> 0 < m1" "s2 \<and> 0 < m2"
      then have "m2 \<le> m1" using le by simp
      then have "F m2 \<le> F m1" by (rule Fm)
      then show ?thesis using a by auto
    next
      assume a: "s1 \<and> 0 < m1" "\<not> (s2 \<and> 0 < m2)"
      then show ?thesis using F0 [OF m(1)] F0 [OF m(2)] by auto
    next
      assume a: "\<not> (s1 \<and> 0 < m1)" "s2 \<and> 0 < m2"
      then have "0 \<le> signed_mag s1 m1" "signed_mag s2 m2 < 0" using m by auto
      then show ?thesis using le by simp
    next
      assume a: "\<not> (s1 \<and> 0 < m1)" "\<not> (s2 \<and> 0 < m2)"
      then have "signed_mag s1 m1 = m1" "signed_mag s2 m2 = m2" using m by auto
      then have "m1 \<le> m2" using le by simp
      then have "F m1 \<le> F m2" by (rule Fm)
      then show ?thesis using a by auto
    qed
    then have "no_decrease (round_to_double (s1 \<and> 0 < m1) (F m1))
        (round_to_double (s2 \<and> 0 < m2) (F m2))"
      using F0 m by (intro round_to_double_mono) simp_all
    then show ?thesis by (simp add: round_2dp_def x1 x2 F_def)
  qed
qed

lemma rounded_mono:
  assumes "is_double x1" "is_double x2" "no_decrease x1 x2"
  shows "no_decrease (rounded x1) (rounded x2)"
  using round_2dp_mono [OF assms] assms(1,2) by (simp add: rounded_eq_round_2dp)

lemma area_scaling_factor_nonneg:
  assumes "is_double a" "js_lt (Fin False 0) a"
  shows "fdiv (Fin False 7) (Math_sqrt a) = Infinity False \<or>
    (\<exists>r. fdiv (Fin False 7) (Math_sqrt a) = Fin False r \<and> 0 \<le> r)"
proof (cases a)
  case NaN
  then show ?thesis using assms by simp
next
  case (Infinity s)
  then show ?thesis using assms by simp
next
  case (Fin s m)
  then have m: "\<not> s" "0 < m" using assms by (auto simp: is_double_Fin_iff split: if_splits)
  then have sq: "Math_sqrt a = round_to_double False (sqrt m)" using Fin by simp
  show ?thesis
  proof (cases "round_to_double False (sqrt m) = Infinity False")
    case True
    then show ?thesis by (simp add: sq)
  next
    case False
    then have r: "round_to_double False (sqrt m) = Fin False (round_mag (sqrt m))"
      using round_to_double_sign [of False "sqrt m"] by simp
    have r0: "0 \<le> round_mag (sqrt m)" using m by (simp add: round_mag_nonneg)
    then have "0 \<le> round_mag (7 / round_mag (sqrt m))" by (simp add: round_mag_nonneg)
    then show ?thesis
      using round_to_double_sign [of False "7 / round_mag (sqrt m)"] by (auto simp: sq r)
  qed
qed


lemma predict_rounded: "predict fd = Some (rounded (predicted_pressure fd))"
  by (simp add: predict_def calculateMinimumPressure_rounded)

lemma is_double_predicted_pressure: "is_double (predicted_pressure fd)"
  by (simp add: predicted_pressure_def is_double_fadd)

section \<open>Evaluation at concrete conditions\<close>

text \<open>
  The literals of the source and of the scenarios below as binary64 values, each
  operation of the function on them, and the function at each scenario.
\<close>

lemma lit_0_68: "lit 0.68 = (Fin False (6124895493223875 / 9007199254740992))"
  unfolding lit_def
  by (rule round_to_double_eqI [where k = "-1" and n = "6124895493223875"], simp_all add: pow2_def)

lemma lit_22: "lit 22 = (Fin False 22)"
  unfolding lit_def
  by (rule round_to_double_eqI [where k = "4" and n = "6192449487634432"], simp_all add: pow2_def)

lemma lit_7_7: "lit 7.7 = (Fin False (8669429282688205 / 1125899906842624))"
  unfolding lit_def
  by (rule round_to_double_eqI [where k = "2" and n = "8669429282688205"], simp_all add: pow2_def)

lemma lit_5_2: "lit 5.2 = (Fin False (5854679515581645 / 1125899906842624))"
  unfolding lit_def
  by (rule round_to_double_eqI [where k = "2" and n = "5854679515581645"], simp_all add: pow2_def)

lemma lit_50: "lit 50 = (Fin False 50)"
  unfolding lit_def
  by (rule round_to_double_eqI [where k = "5" and n = "7036874417766400"], simp_all add: pow2_def)

lemma lit_0_1: "lit 0.1 = (Fin False (3602879701896397 / 36028797018963968))"
  unfolding lit_def
  by (rule round_to_double_eqI [where k = "-4" and n = "7205759403792794"], simp_all add: pow2_def)

lemma lit_273_15: "lit 273.15 = (Fin False (2402652809016115 / 8796093022208))"
  unfolding lit_def
  by (rule round_to_double_eqI [where k = "8" and n = "4805305618032230"], simp_all add: pow2_def)

lemma ev_1: "fadd (Fin False 22) (Fin False (2402652809016115 / 8796093022208)) = (Fin False (2596166855504691 / 8796093022208))"
  by (simp add: fsub_def Let_def, rule round_to_double_eqI [where k = "8" and n = "5192333711009382"], simp_all add: pow2_def)

lemma lit_2: "lit 2 = (Fin False 2)"
  unfolding lit_def
  by (rule round_to_double_eqI [where k = "1" and n = "4503599627370496"], simp_all add: pow2_def)

lemma ev_2: "fmul (Fin False 2) (Fin False (6124895493223875 / 9007199254740992)) = (Fin False (6124895493223875 / 4503599627370496))"
  by (simp add: fsub_def Let_def, rule round_to_double_eqI [where k = "0" and n = "6124895493223875"], simp_all add: pow2_def)

lemma lit_0_083145: "lit 0.083145 = (Fin False (2995614328141759 / 36028797018963968))"
  unfolding lit_def
  by (rule round_to_double_eqI [where k = "-4" and n = "5991228656283518"], simp_all add: pow2_def)

lemma ev_3: "fmul (Fin False (6124895493223875 / 4503599627370496)) (Fin False (2995614328141759 / 36028797018963968)) = (Fin False (8148070972545585 / 72057594037927936))"
  by (simp add: fsub_def Let_def, rule round_to_double_eqI [where k = "-4" and n = "8148070972545585"], simp_all add: pow2_def)

lemma ev_4: "fmul (Fin False (8148070972545585 / 72057594037927936)) (Fin False (2596166855504691 / 8796093022208)) = (Fin False (4697076460052401 / 140737488355328))"
  by (simp add: fsub_def Let_def, rule round_to_double_eqI [where k = "5" and n = "4697076460052401"], simp_all add: pow2_def)

lemma lit_1_6: "lit 1.6 = (Fin False (3602879701896397 / 2251799813685248))"
  unfolding lit_def
  by (rule round_to_double_eqI [where k = "0" and n = "7205759403792794"], simp_all add: pow2_def)

lemma ev_5: "fmul (Fin False (4697076460052401 / 140737488355328)) (Fin False (3602879701896397 / 2251799813685248)) = (Fin False (3757661168041921 / 70368744177664))"
  by (simp add: fsub_def Let_def, rule round_to_double_eqI [where k = "5" and n = "7515322336083842"], simp_all add: pow2_def)

lemma lit_25: "lit 25 = (Fin False 25)"
  unfolding lit_def
  by (rule round_to_double_eqI [where k = "4" and n = "7036874417766400"], simp_all add: pow2_def)

lemma ev_6: "fsub (Fin False 22) (Fin False 25) = (Fin True 3)"
  by (simp add: fsub_def Let_def, rule round_to_double_eqI [where k = "1" and n = "6755399441055744"], simp_all add: pow2_def)

lemma lit_0_004: "lit 0.004 = (Fin False (1152921504606847 / 288230376151711744))"
  unfolding lit_def
  by (rule round_to_double_eqI [where k = "-8" and n = "4611686018427388"], simp_all add: pow2_def)

lemma ev_7: "fmul (Fin False (1152921504606847 / 288230376151711744)) (Fin True 3) = (Fin True (3458764513820541 / 288230376151711744))"
  by (simp add: fsub_def Let_def, rule round_to_double_eqI [where k = "-7" and n = "6917529027641082"], simp_all add: pow2_def)

lemma lit_1: "lit 1 = (Fin False 1)"
  unfolding lit_def
  by (rule round_to_double_eqI [where k = "0" and n = "4503599627370496"], simp_all add: pow2_def)

lemma ev_8: "fsub (Fin False 1) (Fin True (3458764513820541 / 288230376151711744)) = (Fin False (2278821411449471 / 2251799813685248))"
  by (simp add: fsub_def Let_def, rule round_to_double_eqI [where k = "0" and n = "4557642822898942"], simp_all add: pow2_def)

lemma ev_9: "fmul (Fin False (3757661168041921 / 70368744177664)) (Fin False (2278821411449471 / 2251799813685248)) = (Fin False (475344137757303 / 8796093022208))"
  by (simp add: fsub_def Let_def, rule round_to_double_eqI [where k = "5" and n = "7605506204116848"], simp_all add: pow2_def)

lemma lit_32: "lit 32 = (Fin False 32)"
  unfolding lit_def
  by (rule round_to_double_eqI [where k = "5" and n = "4503599627370496"], simp_all add: pow2_def)

lemma ev_10: "fmul (Fin False 32) (Fin False (3602879701896397 / 36028797018963968)) = (Fin False (3602879701896397 / 1125899906842624))"
  by (simp add: fsub_def Let_def, rule round_to_double_eqI [where k = "1" and n = "7205759403792794"], simp_all add: pow2_def)

lemma lit_2_5: "lit 2.5 = (Fin False (5 / 2))"
  unfolding lit_def
  by (rule round_to_double_eqI [where k = "1" and n = "5629499534213120"], simp_all add: pow2_def)

lemma ev_11: "fmul (Fin False (5 / 2)) (Fin False (5854679515581645 / 1125899906842624)) = (Fin False 13)"
  by (simp add: fsub_def Let_def, rule round_to_double_eqI [where k = "3" and n = "7318349394477056"], simp_all add: pow2_def)

lemma lit_7_75: "lit 7.75 = (Fin False (31 / 4))"
  unfolding lit_def
  by (rule round_to_double_eqI [where k = "2" and n = "8725724278030336"], simp_all add: pow2_def)

lemma ev_12: "fsub (Fin False (8669429282688205 / 1125899906842624)) (Fin False (31 / 4)) = (Fin True (56294995342131 / 1125899906842624))"
  by (simp add: fsub_def Let_def, rule round_to_double_eqI [where k = "-5" and n = "7205759403792768"], simp_all add: pow2_def)

lemma ev_13: "Math_abs (Fin True (56294995342131 / 1125899906842624)) = (Fin False (56294995342131 / 1125899906842624))"
  by simp

lemma lit_6_0: "lit 6.0 = (Fin False 6)"
  unfolding lit_def
  by (rule round_to_double_eqI [where k = "2" and n = "6755399441055744"], simp_all add: pow2_def)

lemma ev_14: "fmul (Fin False 6) (Fin False (56294995342131 / 1125899906842624)) = (Fin False (168884986026393 / 562949953421312))"
  by (simp add: fsub_def Let_def, rule round_to_double_eqI [where k = "-2" and n = "5404319552844576"], simp_all add: pow2_def)

lemma ev_15: "Math_sqrt (Fin False 50) = (Fin False (124395540479019 / 17592186044416))"
  by (simp, rule round_to_double_sqrtI [where k = "2" and n = "7961314590657216"], simp_all add: pow2_def power2_eq_square)

lemma lit_7_0: "lit 7.0 = (Fin False 7)"
  unfolding lit_def
  by (rule round_to_double_eqI [where k = "2" and n = "7881299347898368"], simp_all add: pow2_def)

lemma ev_16: "fdiv (Fin False 7) (Fin False (124395540479019 / 17592186044416)) = (Fin False (8916672341536081 / 9007199254740992))"
  by (simp add: fsub_def Let_def, rule round_to_double_eqI [where k = "-1" and n = "8916672341536081"], simp_all add: pow2_def)

lemma ev_17: "fadd (Fin False (475344137757303 / 8796093022208)) (Fin False 13) = (Fin False (589693347046007 / 8796093022208))"
  by (simp add: fsub_def Let_def, rule round_to_double_eqI [where k = "6" and n = "4717546776368056"], simp_all add: pow2_def)

lemma ev_18: "fadd (Fin False (589693347046007 / 8796093022208)) (Fin False (168884986026393 / 562949953421312)) = (Fin False (4738657399621355 / 70368744177664))"
  by (simp add: fsub_def Let_def, rule round_to_double_eqI [where k = "6" and n = "4738657399621355"], simp_all add: pow2_def)

lemma ev_19: "fmul (Fin False (4738657399621355 / 70368744177664)) (Fin False (8916672341536081 / 9007199254740992)) = (Fin False (1172757873347225 / 17592186044416))"
  by (simp add: fsub_def Let_def, rule round_to_double_eqI [where k = "6" and n = "4691031493388900"], simp_all add: pow2_def)

lemma ev_20: "fadd (Fin False (1172757873347225 / 17592186044416)) (Fin False (3602879701896397 / 1125899906842624)) = (Fin False (4916211474757425 / 70368744177664))"
  by (simp add: fsub_def Let_def, rule round_to_double_eqI [where k = "6" and n = "4916211474757425"], simp_all add: pow2_def)

lemma ev_21: "toFixed (Fin False (4916211474757425 / 70368744177664)) 2 = Inr ''69.86''"
  by (simp add: toFixed_def fixed_digits_def large_digits_def Let_def digits_of.simps digit_char_def)

lemma ev_22: "parseFloat ''69.86'' = (Fin False (4915960468251607 / 70368744177664))"
  by (simp add: parseFloat_def str_unsigned_decimal_def is_ws_def is_digit_def digits_val_def digit_val_def exponent_part_def pow10_def Let_def, rule round_to_double_eqI [where k = "6" and n = "4915960468251607"], simp_all add: pow2_def)

lemma lit_69_86: "lit 69.86 = (Fin False (4915960468251607 / 70368744177664))"
  unfolding lit_def
  by (rule round_to_double_eqI [where k = "6" and n = "4915960468251607"], simp_all add: pow2_def)

lemma pp_defaults:
  "predicted_pressure
     \<lparr>salinity = lit 0.68, temperature = lit 22, pH = lit 7.7,
       turbidity = lit 5.2, membraneArea = lit 50, foulingFactor = lit 0.1\<rparr> =
   (Fin False (4916211474757425 / 70368744177664))"
  by (simp only:
      predicted_pressure_def pressure_after_temp_def operational_pressure_def
      osmotic_pressure_def T_K_def viscosity_adjustment_def fouling_penalty_def
      turbidity_penalty_def pH_penalty_def area_scaling_factor_def
      form_data.select_convs
      lit_0_004 lit_0_083145 lit_0_1 lit_0_68 lit_1 lit_1_6 lit_2 lit_22 lit_25 lit_273_15
      lit_2_5 lit_32 lit_50 lit_5_2 lit_69_86 lit_6_0 lit_7_0 lit_7_7 lit_7_75
      ev_1 ev_2 ev_3 ev_4 ev_5 ev_6 ev_7 ev_8 ev_9 ev_10 ev_11 ev_12 ev_13 ev_14 ev_15
      ev_16 ev_17 ev_18 ev_19 ev_20 ev_21 ev_22)

lemma calc_defaults:
  "calculateMinimumPressure
     \<lparr>formData =
          \<lparr>salinity = lit 0.68, temperature = lit 22, pH = lit 7.7,
            turbidity = lit 5.2, membraneArea = lit 50, foulingFactor = lit 0.1\<rparr>,
      predictedPressure = p\<rparr> =
   Inr
     \<lparr>formData =
          \<lparr>salinity = lit 0.68, temperature = lit 22, pH = lit 7.7,
            turbidity = lit 5.2, membraneArea = lit 50, foulingFactor = lit 0.1\<rparr>,
      predictedPressure = Some (lit 69.86)\<rparr>"
  by (simp only:
      calculateMinimumPressure_locals predicted_pressure_def pressure_after_temp_def
      operational_pressure_def osmotic_pressure_def T_K_def viscosity_adjustment_def
      fouling_penalty_def turbidity_penalty_def pH_penalty_def area_scaling_factor_def
      home_state.select_convs home_state.update_convs form_data.select_convs sum.case
      lit_0_004 lit_0_083145 lit_0_1 lit_0_68 lit_1 lit_1_6 lit_2 lit_22 lit_25 lit_273_15
      lit_2_5 lit_32 lit_50 lit_5_2 lit_69_86 lit_6_0 lit_7_0 lit_7_7 lit_7_75
      ev_1 ev_2 ev_3 ev_4 ev_5 ev_6 ev_7 ev_8 ev_9 ev_10 ev_11 ev_12 ev_13 ev_14 ev_15
      ev_16 ev_17 ev_18 ev_19 ev_20 ev_21 ev_22)

lemma lit_0: "lit 0 = (Fin False 0)"
  by (simp add: lit_def round_to_double_0)

lemma ev_23: "Math_sqrt (Fin False 0) = (Fin False 0)"
  by simp

lemma ev_24: "fdiv (Fin False 7) (Fin False 0) = (Infinity False)"
  by (simp add: fsub_def Let_def round_to_double_0)

lemma ev_25: "fmul (Fin False (4738657399621355 / 70368744177664)) (Infinity False) = (Infinity False)"
  by (simp add: fsub_def Let_def round_to_double_0)

lemma ev_26: "fadd (Infinity False) (Fin False (3602879701896397 / 1125899906842624)) = (Infinity False)"
  by (simp add: fsub_def Let_def round_to_double_0)

lemma ev_27: "toFixed (Infinity False) 2 = Inr ''Infinity''"
  by (simp add: toFixed_def fixed_digits_def large_digits_def Let_def digits_of.simps digit_char_def)

lemma ev_28: "parseFloat ''Infinity'' = (Infinity False)"
  by (simp add: parseFloat_def str_unsigned_decimal_def is_ws_def is_digit_def digits_val_def digit_val_def exponent_part_def pow10_def Let_def round_to_double_0)

lemma pp_area_0:
  "predicted_pressure
     \<lparr>salinity = lit 0.68, temperature = lit 22, pH = lit 7.7,
       turbidity = lit 5.2, membraneArea = lit 0, foulingFactor = lit 0.1\<rparr> =
   (Infinity False)"
  by (simp only:
      predicted_pressure_def pressure_after_temp_def operational_pressure_def
      osmotic_pressure_def T_K_def viscosity_adjustment_def fouling_penalty_def
      turbidity_penalty_def pH_penalty_def area_scaling_factor_def
      form_data.select_convs
      lit_0 lit_0_004 lit_0_083145 lit_0_1 lit_0_68 lit_1 lit_1_6 lit_2 lit_22 lit_25
      lit_273_15 lit_2_5 lit_32 lit_50 lit_5_2 lit_69_86 lit_6_0 lit_7_0 lit_7_7 lit_7_75
      ev_1 ev_2 ev_3 ev_4 ev_5 ev_6 ev_7 ev_8 ev_9 ev_10 ev_11 ev_12 ev_13 ev_14 ev_15
      ev_16 ev_17 ev_18 ev_19 ev_20 ev_21 ev_22 ev_23 ev_24 ev_25 ev_26 ev_27 ev_28)

lemma calc_area_0:
  "calculateMinimumPressure
     \<lparr>formData =
          \<lparr>salinity = lit 0.68, temperature = lit 22, pH = lit 7.7,
            turbidity = lit 5.2, membraneArea = lit 0, foulingFactor = lit 0.1\<rparr>,
      predictedPressure = p\<rparr> =
   Inr
     \<lparr>formData =
          \<lparr>salinity = lit 0.68, temperature = lit 22, pH = lit 7.7,
            turbidity = lit 5.2, membraneArea = lit 0, foulingFactor = lit 0.1\<rparr>,
      predictedPressure = Some (Infinity False)\<rparr>"
  by (simp only:
      calculateMinimumPressure_locals predicted_pressure_def pressure_after_temp_def
      operational_pressure_def osmotic_pressure_def T_K_def viscosity_adjustment_def
      fouling_penalty_def turbidity_penalty_def pH_penalty_def area_scaling_factor_def
      home_state.select_convs home_state.update_convs form_data.select_convs sum.case
      lit_0 lit_0_004 lit_0_083145 lit_0_1 lit_0_68 lit_1 lit_1_6 lit_2 lit_22 lit_25
      lit_273_15 lit_2_5 lit_32 lit_50 lit_5_2 lit_69_86 lit_6_0 lit_7_0 lit_7_7 lit_7_75
      ev_1 ev_2 ev_3 ev_4 ev_5 ev_6 ev_7 ev_8 ev_9 ev_10 ev_11 ev_12 ev_13 ev_14 ev_15
      ev_16 ev_17 ev_18 ev_19 ev_20 ev_21 ev_22 ev_23 ev_24 ev_25 ev_26 ev_27 ev_28)

lemma lit_5: "lit 5 = (Fin False 5)"
  unfolding lit_def
  by (rule round_to_double_eqI [where k = "2" and n = "5629499534213120"], simp_all add: pow2_def)

lemma ev_29: "fneg (Fin False 5) = (Fin True 5)"
  by simp

lemma ev_30: "Math_sqrt (Fin True 5) = NaN"
  by simp

lemma ev_31: "fdiv (Fin False 7) NaN = NaN"
  by (simp add: fsub_def Let_def round_to_double_0)

lemma ev_32: "fmul (Fin False (4738657399621355 / 70368744177664)) NaN = NaN"
  by (simp add: fsub_def Let_def round_to_double_0)

lemma ev_33: "fadd NaN (Fin False (3602879701896397 / 1125899906842624)) = NaN"
  by (simp add: fsub_def Let_def round_to_double_0)

lemma ev_34: "toFixed NaN 2 = Inr ''NaN''"
  by (simp add: toFixed_def fixed_digits_def large_digits_def Let_def digits_of.simps digit_char_def)

lemma ev_35: "parseFloat ''NaN'' = NaN"
  by (simp add: parseFloat_def str_unsigned_decimal_def is_ws_def is_digit_def digits_val_def digit_val_def exponent_part_def pow10_def Let_def round_to_double_0)

lemma pp_area_neg:
  "predicted_pressure
     \<lparr>salinity = lit 0.68, temperature = lit 22, pH = lit 7.7,
       turbidity = lit 5.2, membraneArea = fneg (lit 5), foulingFactor = lit 0.1\<rparr> =
   NaN"
  by (simp only:
      predicted_pressure_def pressure_after_temp_def operational_pressure_def
      osmotic_pressure_def T_K_def viscosity_adjustment_def fouling_penalty_def
      turbidity_penalty_def pH_penalty_def area_scaling_factor_def
      form_data.select_convs
      lit_0 lit_0_004 lit_0_083145 lit_0_1 lit_0_68 lit_1 lit_1_6 lit_2 lit_22 lit_25
      lit_273_15 lit_2_5 lit_32 lit_5 lit_50 lit_5_2 lit_69_86 lit_6_0 lit_7_0 lit_7_7
      lit_7_75
      ev_1 ev_2 ev_3 ev_4 ev_5 ev_6 ev_7 ev_8 ev_9 ev_10 ev_11 ev_12 ev_13 ev_14 ev_15
      ev_16 ev_17 ev_18 ev_19 ev_20 ev_21 ev_22 ev_23 ev_24 ev_25 ev_26 ev_27 ev_28 ev_29
      ev_30 ev_31 ev_32 ev_33 ev_34 ev_35)

lemma calc_area_neg:
  "calculateMinimumPressure
     \<lparr>formData =
          \<lparr>salinity = lit 0.68, temperature = lit 22, pH = lit 7.7,
            turbidity = lit 5.2, membraneArea = fneg (lit 5), foulingFactor = lit 0.1\<rparr>,
      predictedPressure = p\<rparr> =
   Inr
     \<lparr>formData =
          \<lparr>salinity = lit 0.68, temperature = lit 22, pH = lit 7.7,
            turbidity = lit 5.2, membraneArea = fneg (lit 5), foulingFactor = lit 0.1\<rparr>,
      predictedPressure = Some NaN\<rparr>"
  by (simp only:
      calculateMinimumPressure_locals predicted_pressure_def pressure_after_temp_def
      operational_pressure_def osmotic_pressure_def T_K_def viscosity_adjustment_def
      fouling_penalty_def turbidity_penalty_def pH_penalty_def area_scaling_factor_def
      home_state.select_convs home_state.update_convs form_data.select_convs sum.case
      lit_0 lit_0_004 lit_0_083145 lit_0_1 lit_0_68 lit_1 lit_1_6 lit_2 lit_22 lit_25
      lit_273_15 lit_2_5 lit_32 lit_5 lit_50 lit_5_2 lit_69_86 lit_6_0 lit_7_0 lit_7_7
      lit_7_75
      ev_1 ev_2 ev_3 ev_4 ev_5 ev_6 ev_7 ev_8 ev_9 ev_10 ev_11 ev_12 ev_13 ev_14 ev_15
      ev_16 ev_17 ev_18 ev_19 ev_20 ev_21 ev_22 ev_23 ev_24 ev_25 ev_26 ev_27 ev_28 ev_29
      ev_30 ev_31 ev_32 ev_33 ev_34 ev_35)

lemma lit_10: "lit 10 = (Fin False 10)"
  unfolding lit_def
  by (rule round_to_double_eqI [where k = "3" and n = "5629499534213120"], simp_all add: pow2_def)

lemma ev_36: "Math_sqrt (Fin False 10) = (Fin False (7120816245988179 / 2251799813685248))"
  by (simp, rule round_to_double_sqrtI [where k = "1" and n = "7120816245988179"], simp_all add: pow2_def power2_eq_square)

lemma ev_37: "fdiv (Fin False 7) (Fin False (7120816245988179 / 2251799813685248)) = (Fin False (4984571372191725 / 2251799813685248))"
  by (simp add: fsub_def Let_def, rule round_to_double_eqI [where k = "1" and n = "4984571372191725"], simp_all add: pow2_def)

lemma ev_38: "fmul (Fin False (4738657399621355 / 70368744177664)) (Fin False (4984571372191725 / 2251799813685248)) = (Fin False (655591581488121 / 4398046511104))"
  by (simp add: fsub_def Let_def, rule round_to_double_eqI [where k = "7" and n = "5244732651904968"], simp_all add: pow2_def)

lemma ev_39: "fadd (Fin False (655591581488121 / 4398046511104)) (Fin False (3602879701896397 / 1125899906842624)) = (Fin False (2678661321294615 / 17592186044416))"
  by (simp add: fsub_def Let_def, rule round_to_double_eqI [where k = "7" and n = "5357322642589230"], simp_all add: pow2_def)

lemma ev_40: "toFixed (Fin False (2678661321294615 / 17592186044416)) 2 = Inr ''152.26''"
  by (simp add: toFixed_def fixed_digits_def large_digits_def Let_def digits_of.simps digit_char_def)

lemma ev_41: "parseFloat ''152.26'' = (Fin False (669646561780695 / 4398046511104))"
  by (simp add: parseFloat_def str_unsigned_decimal_def is_ws_def is_digit_def digits_val_def digit_val_def exponent_part_def pow10_def Let_def, rule round_to_double_eqI [where k = "7" and n = "5357172494245560"], simp_all add: pow2_def)

lemma lit_152_26: "lit 152.26 = (Fin False (669646561780695 / 4398046511104))"
  unfolding lit_def
  by (rule round_to_double_eqI [where k = "7" and n = "5357172494245560"], simp_all add: pow2_def)

lemma pp_area_10:
  "predicted_pressure
     \<lparr>salinity = lit 0.68, temperature = lit 22, pH = lit 7.7,
       turbidity = lit 5.2, membraneArea = lit 10, foulingFactor = lit 0.1\<rparr> =
   (Fin False (2678661321294615 / 17592186044416))"
  by (simp only:
      predicted_pressure_def pressure_after_temp_def operational_pressure_def
      osmotic_pressure_def T_K_def viscosity_adjustment_def fouling_penalty_def
      turbidity_penalty_def pH_penalty_def area_scaling_factor_def
      form_data.select_convs
      lit_0 lit_0_004 lit_0_083145 lit_0_1 lit_0_68 lit_1 lit_10 lit_152_26 lit_1_6 lit_2
      lit_22 lit_25 lit_273_15 lit_2_5 lit_32 lit_5 lit_50 lit_5_2 lit_69_86 lit_6_0
      lit_7_0 lit_7_7 lit_7_75
      ev_1 ev_2 ev_3 ev_4 ev_5 ev_6 ev_7 ev_8 ev_9 ev_10 ev_11 ev_12 ev_13 ev_14 ev_15
      ev_16 ev_17 ev_18 ev_19 ev_20 ev_21 ev_22 ev_23 ev_24 ev_25 ev_26 ev_27 ev_28 ev_29
      ev_30 ev_31 ev_32 ev_33 ev_34 ev_35 ev_36 ev_37 ev_38 ev_39 ev_40 ev_41)

lemma calc_area_10:
  "calculateMinimumPressure
     \<lparr>formData =
          \<lparr>salinity = lit 0.68, temperature = lit 22, pH = lit 7.7,
            turbidity = lit 5.2, membraneArea = lit 10, foulingFactor = lit 0.1\<rparr>,
      predictedPressure = p\<rparr> =
   Inr
     \<lparr>formData =
          \<lparr>salinity = lit 0.68, temperature = lit 22, pH = lit 7.7,
            turbidity = lit 5.2, membraneArea = lit 10, foulingFactor = lit 0.1\<rparr>,
      predictedPressure = Some (lit 152.26)\<rparr>"
  by (simp only:
      calculateMinimumPressure_locals predicted_pressure_def pressure_after_temp_def
      operational_pressure_def osmotic_pressure_def T_K_def viscosity_adjustment_def
      fouling_penalty_def turbidity_penalty_def pH_penalty_def area_scaling_factor_def
      home_state.select_convs home_state.update_convs form_data.select_convs sum.case
      lit_0 lit_0_004 lit_0_083145 lit_0_1 lit_0_68 lit_1 lit_10 lit_152_26 lit_1_6 lit_2
      lit_22 lit_25 lit_273_15 lit_2_5 lit_32 lit_5 lit_50 lit_5_2 lit_69_86 lit_6_0
      lit_7_0 lit_7_7 lit_7_75
      ev_1 ev_2 ev_3 ev_4 ev_5 ev_6 ev_7 ev_8 ev_9 ev_10 ev_11 ev_12 ev_13 ev_14 ev_15
      ev_16 ev_17 ev_18 ev_19 ev_20 ev_21 ev_22 ev_23 ev_24 ev_25 ev_26 ev_27 ev_28 ev_29
      ev_30 ev_31 ev_32 ev_33 ev_34 ev_35 ev_36 ev_37 ev_38 ev_39 ev_40 ev_41)

lemma lit_2_0: "lit 2.0 = (Fin False 2)"
  unfolding lit_def
  by (rule round_to_double_eqI [where k = "1" and n = "4503599627370496"], simp_all add: pow2_def)

lemma lit_1_0: "lit 1.0 = (Fin False 1)"
  unfolding lit_def
  by (rule round_to_double_eqI [where k = "0" and n = "4503599627370496"], simp_all add: pow2_def)

lemma ev_42: "fadd (Fin False 5) (Fin False (2402652809016115 / 8796093022208)) = (Fin False (2446633274127155 / 8796093022208))"
  by (simp add: fsub_def Let_def, rule round_to_double_eqI [where k = "8" and n = "4893266548254310"], simp_all add: pow2_def)

lemma ev_43: "fmul (Fin False 2) (Fin False 2) = (Fin False 4)"
  by (simp add: fsub_def Let_def, rule round_to_double_eqI [where k = "2" and n = "4503599627370496"], simp_all add: pow2_def)

lemma ev_44: "fmul (Fin False 4) (Fin False (2995614328141759 / 36028797018963968)) = (Fin False (2995614328141759 / 9007199254740992))"
  by (simp add: fsub_def Let_def, rule round_to_double_eqI [where k = "-2" and n = "5991228656283518"], simp_all add: pow2_def)

lemma ev_45: "fmul (Fin False (2995614328141759 / 9007199254740992)) (Fin False (2446633274127155 / 8796093022208)) = (Fin False (6509610354473673 / 70368744177664))"
  by (simp add: fsub_def Let_def, rule round_to_double_eqI [where k = "6" and n = "6509610354473673"], simp_all add: pow2_def)

lemma ev_46: "fmul (Fin False (6509610354473673 / 70368744177664)) (Fin False (3602879701896397 / 2251799813685248)) = (Fin False (5207688283578939 / 35184372088832))"
  by (simp add: fsub_def Let_def, rule round_to_double_eqI [where k = "7" and n = "5207688283578939"], simp_all add: pow2_def)

lemma ev_47: "fsub (Fin False 5) (Fin False 25) = (Fin True 20)"
  by (simp add: fsub_def Let_def, rule round_to_double_eqI [where k = "4" and n = "5629499534213120"], simp_all add: pow2_def)

lemma ev_48: "fmul (Fin False (1152921504606847 / 288230376151711744)) (Fin True 20) = (Fin True (5764607523034235 / 72057594037927936))"
  by (simp add: fsub_def Let_def, rule round_to_double_eqI [where k = "-4" and n = "5764607523034235"], simp_all add: pow2_def)

lemma ev_49: "fsub (Fin False 1) (Fin True (5764607523034235 / 72057594037927936)) = (Fin False (607985949695017 / 562949953421312))"
  by (simp add: fsub_def Let_def, rule round_to_double_eqI [where k = "0" and n = "4863887597560136"], simp_all add: pow2_def)

lemma ev_50: "fmul (Fin False (5207688283578939 / 35184372088832)) (Fin False (607985949695017 / 562949953421312)) = (Fin False (2812151673132627 / 17592186044416))"
  by (simp add: fsub_def Let_def, rule round_to_double_eqI [where k = "7" and n = "5624303346265254"], simp_all add: pow2_def)

lemma ev_51: "fmul (Fin False 32) (Fin False 1) = (Fin False 32)"
  by (simp add: fsub_def Let_def, rule round_to_double_eqI [where k = "5" and n = "4503599627370496"], simp_all add: pow2_def)

lemma ev_52: "fadd (Fin False (2812151673132627 / 17592186044416)) (Fin False 13) = (Fin False (3040850091710035 / 17592186044416))"
  by (simp add: fsub_def Let_def, rule round_to_double_eqI [where k = "7" and n = "6081700183420070"], simp_all add: pow2_def)

lemma ev_53: "fadd (Fin False (3040850091710035 / 17592186044416)) (Fin False (168884986026393 / 562949953421312)) = (Fin False (95191492110105 / 549755813888))"
  by (simp add: fsub_def Let_def, rule round_to_double_eqI [where k = "7" and n = "6092255495046720"], simp_all add: pow2_def)

lemma ev_54: "fmul (Fin False (95191492110105 / 549755813888)) (Fin False (8916672341536081 / 9007199254740992)) = (Fin False (753878155321995 / 4398046511104))"
  by (simp add: fsub_def Let_def, rule round_to_double_eqI [where k = "7" and n = "6031025242575960"], simp_all add: pow2_def)

lemma ev_55: "fadd (Fin False (753878155321995 / 4398046511104)) (Fin False 32) = (Fin False (894615643677323 / 4398046511104))"
  by (simp add: fsub_def Let_def, rule round_to_double_eqI [where k = "7" and n = "7156925149418584"], simp_all add: pow2_def)

lemma ev_56: "toFixed (Fin False (894615643677323 / 4398046511104)) 2 = Inr ''203.41''"
  by (simp add: toFixed_def fixed_digits_def large_digits_def Let_def digits_of.simps digit_char_def)

lemma ev_57: "parseFloat ''203.41'' = (Fin False (7156853126589317 / 35184372088832))"
  by (simp add: parseFloat_def str_unsigned_decimal_def is_ws_def is_digit_def digits_val_def digit_val_def exponent_part_def pow10_def Let_def, rule round_to_double_eqI [where k = "7" and n = "7156853126589317"], simp_all add: pow2_def)

lemma lit_203_41: "lit 203.41 = (Fin False (7156853126589317 / 35184372088832))"
  unfolding lit_def
  by (rule round_to_double_eqI [where k = "7" and n = "7156853126589317"], simp_all add: pow2_def)

lemma pp_extreme:
  "predicted_pressure
     \<lparr>salinity = lit 2.0, temperature = lit 5, pH = lit 7.7,
       turbidity = lit 5.2, membraneArea = lit 50, foulingFactor = lit 1.0\<rparr> =
   (Fin False (894615643677323 / 4398046511104))"
  by (simp only:
      predicted_pressure_def pressure_after_temp_def operational_pressure_def
      osmotic_pressure_def T_K_def viscosity_adjustment_def fouling_penalty_def
      turbidity_penalty_def pH_penalty_def area_scaling_factor_def
      form_data.select_convs
      lit_0 lit_0_004 lit_0_083145 lit_0_1 lit_0_68 lit_1 lit_10 lit_152_26 lit_1_0 lit_1_6
      lit_2 lit_203_41 lit_22 lit_25 lit_273_15 lit_2_0 lit_2_5 lit_32 lit_5 lit_50 lit_5_2
      lit_69_86 lit_6_0 lit_7_0 lit_7_7 lit_7_75
      ev_1 ev_2 ev_3 ev_4 ev_5 ev_6 ev_7 ev_8 ev_9 ev_10 ev_11 ev_12 ev_13 ev_14 ev_15
      ev_16 ev_17 ev_18 ev_19 ev_20 ev_21 ev_22 ev_23 ev_24 ev_25 ev_26 ev_27 ev_28 ev_29
      ev_30 ev_31 ev_32 ev_33 ev_34 ev_35 ev_36 ev_37 ev_38 ev_39 ev_40 ev_41 ev_42 ev_43
      ev_44 ev_45 ev_46 ev_47 ev_48 ev_49 ev_50 ev_51 ev_52 ev_53 ev_54 ev_55 ev_56 ev_57)

lemma calc_extreme:
  "calculateMinimumPressure
     \<lparr>formData =
          \<lparr>salinity = lit 2.0, temperature = lit 5, pH = lit 7.7,
            turbidity = lit 5.2, membraneArea = lit 50, foulingFactor = lit 1.0\<rparr>,
      predictedPressure = p\<rparr> =
   Inr
     \<lparr>formData =
          \<lparr>salinity = lit 2.0, temperature = lit 5, pH = lit 7.7,
            turbidity = lit 5.2, membraneArea = lit 50, foulingFactor = lit 1.0\<rparr>,
      predictedPressure = Some (lit 203.41)\<rparr>"
  by (simp only:
      calculateMinimumPressure_locals predicted_pressure_def pressure_after_temp_def
      operational_pressure_def osmotic_pressure_def T_K_def viscosity_adjustment_def
      fouling_penalty_def turbidity_penalty_def pH_penalty_def area_scaling_factor_def
      home_state.select_convs home_state.update_convs form_data.select_convs sum.case
      lit_0 lit_0_004 lit_0_083145 lit_0_1 lit_0_68 lit_1 lit_10 lit_152_26 lit_1_0 lit_1_6
      lit_2 lit_203_41 lit_22 lit_25 lit_273_15 lit_2_0 lit_2_5 lit_32 lit_5 lit_50 lit_5_2
      lit_69_86 lit_6_0 lit_7_0 lit_7_7 lit_7_75
      ev_1 ev_2 ev_3 ev_4 ev_5 ev_6 ev_7 ev_8 ev_9 ev_10 ev_11 ev_12 ev_13 ev_14 ev_15
      ev_16 ev_17 ev_18 ev_19 ev_20 ev_21 ev_22 ev_23 ev_24 ev_25 ev_26 ev_27 ev_28 ev_29
      ev_30 ev_31 ev_32 ev_33 ev_34 ev_35 ev_36 ev_37 ev_38 ev_39 ev_40 ev_41 ev_42 ev_43
      ev_44 ev_45 ev_46 ev_47 ev_48 ev_49 ev_50 ev_51 ev_52 ev_53 ev_54 ev_55 ev_56 ev_57)

lemma lit_0_10001: "lit 0.10001 = (Fin False (7206479979733173 / 72057594037927936))"
  unfolding lit_def
  by (rule round_to_double_eqI [where k = "-4" and n = "7206479979733173"], simp_all add: pow2_def)

lemma ev_58: "fmul (Fin False 32) (Fin False (7206479979733173 / 72057594037927936)) = (Fin False (7206479979733173 / 2251799813685248))"
  by (simp add: fsub_def Let_def, rule round_to_double_eqI [where k = "1" and n = "7206479979733173"], simp_all add: pow2_def)

lemma ev_59: "fadd (Fin False (1172757873347225 / 17592186044416)) (Fin False (7206479979733173 / 2251799813685248)) = (Fin False (2458116996377781 / 35184372088832))"
  by (simp add: fsub_def Let_def, rule round_to_double_eqI [where k = "6" and n = "4916233992755562"], simp_all add: pow2_def)

lemma ev_60: "toFixed (Fin False (2458116996377781 / 35184372088832)) 2 = Inr ''69.86''"
  by (simp add: toFixed_def fixed_digits_def large_digits_def Let_def digits_of.simps digit_char_def)

lemma pp_fouling_up:
  "predicted_pressure
     \<lparr>salinity = lit 0.68, temperature = lit 22, pH = lit 7.7,
       turbidity = lit 5.2, membraneArea = lit 50, foulingFactor = lit 0.10001\<rparr> =
   (Fin False (2458116996377781 / 35184372088832))"
  by (simp only:
      predicted_pressure_def pressure_after_temp_def operational_pressure_def
      osmotic_pressure_def T_K_def viscosity_adjustment_def fouling_penalty_def
      turbidity_penalty_def pH_penalty_def area_scaling_factor_def
      form_data.select_convs
      lit_0 lit_0_004 lit_0_083145 lit_0_1 lit_0_10001 lit_0_68 lit_1 lit_10 lit_152_26
      lit_1_0 lit_1_6 lit_2 lit_203_41 lit_22 lit_25 lit_273_15 lit_2_0 lit_2_5 lit_32
      lit_5 lit_50 lit_5_2 lit_69_86 lit_6_0 lit_7_0 lit_7_7 lit_7_75
      ev_1 ev_2 ev_3 ev_4 ev_5 ev_6 ev_7 ev_8 ev_9 ev_10 ev_11 ev_12 ev_13 ev_14 ev_15
      ev_16 ev_17 ev_18 ev_19 ev_20 ev_21 ev_22 ev_23 ev_24 ev_25 ev_26 ev_27 ev_28 ev_29
      ev_30 ev_31 ev_32 ev_33 ev_34 ev_35 ev_36 ev_37 ev_38 ev_39 ev_40 ev_41 ev_42 ev_43
      ev_44 ev_45 ev_46 ev_47 ev_48 ev_49 ev_50 ev_51 ev_52 ev_53 ev_54 ev_55 ev_56 ev_57
      ev_58 ev_59 ev_60)

lemma calc_fouling_up:
  "calculateMinimumPressure
     \<lparr>formData =
          \<lparr>salinity = lit 0.68, temperature = lit 22, pH = lit 7.7,
            turbidity = lit 5.2, membraneArea = lit 50, foulingFactor = lit 0.10001\<rparr>,
      predictedPressure = p\<rparr> =
   Inr
     \<lparr>formData =
          \<lparr>salinity = lit 0.68, temperature = lit 22, pH = lit 7.7,
            turbidity = lit 5.2, membraneArea = lit 50, foulingFactor = lit 0.10001\<rparr>,
      predictedPressure = Some (lit 69.86)\<rparr>"
  by (simp only:
      calculateMinimumPressure_locals predicted_pressure_def pressure_after_temp_def
      operational_pressure_def osmotic_pressure_def T_K_def viscosity_adjustment_def
      fouling_penalty_def turbidity_penalty_def pH_penalty_def area_scaling_factor_def
      home_state.select_convs home_state.update_convs form_data.select_convs sum.case
      lit_0 lit_0_004 lit_0_083145 lit_0_1 lit_0_10001 lit_0_68 lit_1 lit_10 lit_152_26
      lit_1_0 lit_1_6 lit_2 lit_203_41 lit_22 lit_25 lit_273_15 lit_2_0 lit_2_5 lit_32
      lit_5 lit_50 lit_5_2 lit_69_86 lit_6_0 lit_7_0 lit_7_7 lit_7_75
      ev_1 ev_2 ev_3 ev_4 ev_5 ev_6 ev_7 ev_8 ev_9 ev_10 ev_11 ev_12 ev_13 ev_14 ev_15
      ev_16 ev_17 ev_18 ev_19 ev_20 ev_21 ev_22 ev_23 ev_24 ev_25 ev_26 ev_27 ev_28 ev_29
      ev_30 ev_31 ev_32 ev_33 ev_34 ev_35 ev_36 ev_37 ev_38 ev_39 ev_40 ev_41 ev_42 ev_43
      ev_44 ev_45 ev_46 ev_47 ev_48 ev_49 ev_50 ev_51 ev_52 ev_53 ev_54 ev_55 ev_56 ev_57
      ev_58 ev_59 ev_60)

lemma lit_5_2001: "lit 5.2001 = (Fin False (5854792105572329 / 1125899906842624))"
  unfolding lit_def
  by (rule round_to_double_eqI [where k = "2" and n = "5854792105572329"], simp_all add: pow2_def)

lemma ev_61: "fmul (Fin False (5 / 2)) (Fin False (5854792105572329 / 1125899906842624)) = (Fin False (7318490131965411 / 562949953421312))"
  by (simp add: fsub_def Let_def, rule round_to_double_eqI [where k = "3" and n = "7318490131965411"], simp_all add: pow2_def)

lemma ev_62: "fadd (Fin False (475344137757303 / 8796093022208)) (Fin False (7318490131965411 / 562949953421312)) = (Fin False (1179391092138525 / 17592186044416))"
  by (simp add: fsub_def Let_def, rule round_to_double_eqI [where k = "6" and n = "4717564368554100"], simp_all add: pow2_def)

lemma ev_63: "fadd (Fin False (1179391092138525 / 17592186044416)) (Fin False (168884986026393 / 562949953421312)) = (Fin False (4738674991807399 / 70368744177664))"
  by (simp add: fsub_def Let_def, rule round_to_double_eqI [where k = "6" and n = "4738674991807399"], simp_all add: pow2_def)

lemma ev_64: "fmul (Fin False (4738674991807399 / 70368744177664)) (Fin False (8916672341536081 / 9007199254740992)) = (Fin False (4691048908764567 / 70368744177664))"
  by (simp add: fsub_def Let_def, rule round_to_double_eqI [where k = "6" and n = "4691048908764567"], simp_all add: pow2_def)

lemma ev_65: "fadd (Fin False (4691048908764567 / 70368744177664)) (Fin False (3602879701896397 / 1125899906842624)) = (Fin False (1229057222533273 / 17592186044416))"
  by (simp add: fsub_def Let_def, rule round_to_double_eqI [where k = "6" and n = "4916228890133092"], simp_all add: pow2_def)

lemma ev_66: "toFixed (Fin False (1229057222533273 / 17592186044416)) 2 = Inr ''69.86''"
  by (simp add: toFixed_def fixed_digits_def large_digits_def Let_def digits_of.simps digit_char_def)

lemma pp_turbidity_up:
  "predicted_pressure
     \<lparr>salinity = lit 0.68, temperature = lit 22, pH = lit 7.7,
       turbidity = lit 5.2001, membraneArea = lit 50, foulingFactor = lit 0.1\<rparr> =
   (Fin False (1229057222533273 / 17592186044416))"
  by (simp only:
      predicted_pressure_def pressure_after_temp_def operational_pressure_def
      osmotic_pressure_def T_K_def viscosity_adjustment_def fouling_penalty_def
      turbidity_penalty_def pH_penalty_def area_scaling_factor_def
      form_data.select_convs
      lit_0 lit_0_004 lit_0_083145 lit_0_1 lit_0_10001 lit_0_68 lit_1 lit_10 lit_152_26
      lit_1_0 lit_1_6 lit_2 lit_203_41 lit_22 lit_25 lit_273_15 lit_2_0 lit_2_5 lit_32
      lit_5 lit_50 lit_5_2 lit_5_2001 lit_69_86 lit_6_0 lit_7_0 lit_7_7 lit_7_75
      ev_1 ev_2 ev_3 ev_4 ev_5 ev_6 ev_7 ev_8 ev_9 ev_10 ev_11 ev_12 ev_13 ev_14 ev_15
      ev_16 ev_17 ev_18 ev_19 ev_20 ev_21 ev_22 ev_23 ev_24 ev_25 ev_26 ev_27 ev_28 ev_29
      ev_30 ev_31 ev_32 ev_33 ev_34 ev_35 ev_36 ev_37 ev_38 ev_39 ev_40 ev_41 ev_42 ev_43
      ev_44 ev_45 ev_46 ev_47 ev_48 ev_49 ev_50 ev_51 ev_52 ev_53 ev_54 ev_55 ev_56 ev_57
      ev_58 ev_59 ev_60 ev_61 ev_62 ev_63 ev_64 ev_65 ev_66)

lemma calc_turbidity_up:
  "calculateMinimumPressure
     \<lparr>formData =
          \<lparr>salinity = lit 0.68, temperature = lit 22, pH = lit 7.7,
            turbidity = lit 5.2001, membraneArea = lit 50, foulingFactor = lit 0.1\<rparr>,
      predictedPressure = p\<rparr> =
   Inr
     \<lparr>formData =
          \<lparr>salinity = lit 0.68, temperature = lit 22, pH = lit 7.7,
            turbidity = lit 5.2001, membraneArea = lit 50, foulingFactor = lit 0.1\<rparr>,
      predictedPressure = Some (lit 69.86)\<rparr>"
  by (simp only:
      calculateMinimumPressure_locals predicted_pressure_def pressure_after_temp_def
      operational_pressure_def osmotic_pressure_def T_K_def viscosity_adjustment_def
      fouling_penalty_def turbidity_penalty_def pH_penalty_def area_scaling_factor_def
      home_state.select_convs home_state.update_convs form_data.select_convs sum.case
      lit_0 lit_0_004 lit_0_083145 lit_0_1 lit_0_10001 lit_0_68 lit_1 lit_10 lit_152_26
      lit_1_0 lit_1_6 lit_2 lit_203_41 lit_22 lit_25 lit_273_15 lit_2_0 lit_2_5 lit_32
      lit_5 lit_50 lit_5_2 lit_5_2001 lit_69_86 lit_6_0 lit_7_0 lit_7_7 lit_7_75
      ev_1 ev_2 ev_3 ev_4 ev_5 ev_6 ev_7 ev_8 ev_9 ev_10 ev_11 ev_12 ev_13 ev_14 ev_15
      ev_16 ev_17 ev_18 ev_19 ev_20 ev_21 ev_22 ev_23 ev_24 ev_25 ev_26 ev_27 ev_28 ev_29
      ev_30 ev_31 ev_32 ev_33 ev_34 ev_35 ev_36 ev_37 ev_38 ev_39 ev_40 ev_41 ev_42 ev_43
      ev_44 ev_45 ev_46 ev_47 ev_48 ev_49 ev_50 ev_51 ev_52 ev_53 ev_54 ev_55 ev_56 ev_57
      ev_58 ev_59 ev_60 ev_61 ev_62 ev_63 ev_64 ev_65 ev_66)

lemma lit_35: "lit 35 = (Fin False 35)"
  unfolding lit_def
  by (rule round_to_double_eqI [where k = "5" and n = "4925812092436480"], simp_all add: pow2_def)

lemma lit_70: "lit 70 = (Fin False 70)"
  unfolding lit_def
  by (rule round_to_double_eqI [where k = "6" and n = "4925812092436480"], simp_all add: pow2_def)

lemma lit_3_5: "lit 3.5 = (Fin False (7 / 2))"
  unfolding lit_def
  by (rule round_to_double_eqI [where k = "1" and n = "7881299347898368"], simp_all add: pow2_def)

lemma lit_203_42: "lit 203.42 = (Fin False (7157204970310205 / 35184372088832))"
  unfolding lit_def
  by (rule round_to_double_eqI [where k = "7" and n = "7157204970310205"], simp_all add: pow2_def)

lemma lit_69_863: "lit 69.863 = (Fin False (1229042893621035 / 17592186044416))"
  unfolding lit_def
  by (rule round_to_double_eqI [where k = "6" and n = "4916171574484140"], simp_all add: pow2_def)

lemma lit_69_864: "lit 69.864 = (Fin False (2458120971614159 / 35184372088832))"
  unfolding lit_def
  by (rule round_to_double_eqI [where k = "6" and n = "4916241943228318"], simp_all add: pow2_def)


section \<open>The claims\<close>

text \<open>
  C1. For every state, \<^verbatim>\<open>calculateMinimumPressure\<close> stores what the specified pipeline
  gives on the form data: \<open>T_K\<close>, the osmotic and operational pressure, the
  temperature correction, the turbidity and pH penalties added before the area scaling
  and the fouling penalty after it, and the result rounded to 2 decimal places.
  It holds for every membraneArea, positive or not.
\<close>

theorem calculateMinimumPressure_is_spec_pipeline:
  "calculateMinimumPressure st =
     Inr (st\<lparr>predictedPressure := Some (spec_predict (formData st))\<rparr>)"
proof -
  have "spec_predict (formData st) = round_2dp (predicted_pressure (formData st))"
    by (simp add: spec_predict_def predicted_pressure_def pressure_after_temp_def
        operational_pressure_def osmotic_pressure_def T_K_def viscosity_adjustment_def
        fouling_penalty_def turbidity_penalty_def pH_penalty_def area_scaling_factor_def)
  also have "\<dots> = rounded (predicted_pressure (formData st))"
    by (simp add: rounded_eq_round_2dp is_double_predicted_pressure)
  finally show ?thesis by (simp add: calculateMinimumPressure_rounded)
qed

text \<open>
  C2 (as stated, refuted). For the reference conditions salinity 0.68, temperature 22,
  pH 7.7, turbidity 5.2, membraneArea 50, foulingFactor 0.1 the claim expects a result
  within 0.01 of 69.97. The function stores the binary64 number
  4915960468251607 / 2^46 (about 69.86), which is further than 0.01 from 69.97.
\<close>

theorem reference_scenario_not_69_97:
  "calculateMinimumPressure
     \<lparr>formData =
          \<lparr>salinity = lit 0.68, temperature = lit 22, pH = lit 7.7,
            turbidity = lit 5.2, membraneArea = lit 50, foulingFactor = lit 0.1\<rparr>,
      predictedPressure = None\<rparr> =
   Inr
     \<lparr>formData =
          \<lparr>salinity = lit 0.68, temperature = lit 22, pH = lit 7.7,
            turbidity = lit 5.2, membraneArea = lit 50, foulingFactor = lit 0.1\<rparr>,
      predictedPressure = Some (Fin False (4915960468251607 / 70368744177664))\<rparr> \<and>
   \<not> \<bar>4915960468251607 / 70368744177664 - 69.97\<bar> \<le> (0.01 :: real)"
  using calc_defaults [of None] by (simp only: lit_69_86) simp

text \<open>
  C2 (amended). For the reference conditions the function stores 69.86: the binary64
  number nearest to 69.86, which lies within 0.01 of 69.86. The value before the
  rounding lies between 69.863 and 69.864.
\<close>

theorem reference_scenario_69_86:
  "calculateMinimumPressure
     \<lparr>formData =
          \<lparr>salinity = lit 0.68, temperature = lit 22, pH = lit 7.7,
            turbidity = lit 5.2, membraneArea = lit 50, foulingFactor = lit 0.1\<rparr>,
      predictedPressure = None\<rparr> =
   Inr
     \<lparr>formData =
          \<lparr>salinity = lit 0.68, temperature = lit 22, pH = lit 7.7,
            turbidity = lit 5.2, membraneArea = lit 50, foulingFactor = lit 0.1\<rparr>,
      predictedPressure = Some (lit 69.86)\<rparr> \<and>
   lit 69.86 = Fin False (4915960468251607 / 70368744177664) \<and>
   \<bar>4915960468251607 / 70368744177664 - 69.86\<bar> \<le> (0.01 :: real) \<and>
   js_lt (lit 69.863)
     (predicted_pressure
        \<lparr>salinity = lit 0.68, temperature = lit 22, pH = lit 7.7,
          turbidity = lit 5.2, membraneArea = lit 50, foulingFactor = lit 0.1\<rparr>) \<and>
   js_lt
     (predicted_pressure
        \<lparr>salinity = lit 0.68, temperature = lit 22, pH = lit 7.7,
          turbidity = lit 5.2, membraneArea = lit 50, foulingFactor = lit 0.1\<rparr>)
     (lit 69.864)"
  unfolding pp_defaults calc_defaults [of None]
  by (simp only: lit_69_86 lit_69_863 lit_69_864) simp

text \<open>
  C3 (as stated, refuted). With membraneArea 0 and the other fields at their defaults
  the function raises nothing: it returns normally and stores \<open>Infinity\<close>.
\<close>

theorem zero_area_stores_infinity:
  "calculateMinimumPressure
     \<lparr>formData =
          \<lparr>salinity = lit 0.68, temperature = lit 22, pH = lit 7.7,
            turbidity = lit 5.2, membraneArea = lit 0, foulingFactor = lit 0.1\<rparr>,
      predictedPressure = None\<rparr> =
   Inr
     \<lparr>formData =
          \<lparr>salinity = lit 0.68, temperature = lit 22, pH = lit 7.7,
            turbidity = lit 5.2, membraneArea = lit 0, foulingFactor = lit 0.1\<rparr>,
      predictedPressure = Some (Infinity False)\<rparr>"
  by (rule calc_area_0)

text \<open>
  C3 (amended). For every input whose membraneArea is zero or negative the function
  raises no error: it returns normally and stores a number that is not finite (an
  infinity or \<open>NaN\<close>). For membraneArea 10, the other fields at their defaults, it
  stores the finite number 152.26.
\<close>

theorem nonpositive_area_stores_nonfinite:
  "(is_double (membraneArea fd) \<and> js_le (membraneArea fd) (lit 0) \<longrightarrow>
      (\<exists>v. calculateMinimumPressure \<lparr>formData = fd, predictedPressure = p\<rparr> =
             Inr \<lparr>formData = fd, predictedPressure = Some v\<rparr> \<and>
           \<not> isFinite v)) \<and>
   calculateMinimumPressure
     \<lparr>formData =
          \<lparr>salinity = lit 0.68, temperature = lit 22, pH = lit 7.7,
            turbidity = lit 5.2, membraneArea = lit 10, foulingFactor = lit 0.1\<rparr>,
      predictedPressure = p\<rparr> =
   Inr
     \<lparr>formData =
          \<lparr>salinity = lit 0.68, temperature = lit 22, pH = lit 7.7,
            turbidity = lit 5.2, membraneArea = lit 10, foulingFactor = lit 0.1\<rparr>,
      predictedPressure = Some (lit 152.26)\<rparr> \<and>
   isFinite (lit 152.26)"
proof (intro conjI impI)
  assume a: "is_double (membraneArea fd) \<and> js_le (membraneArea fd) (lit 0)"
  have "\<not> isFinite (area_scaling_factor fd)"
  proof (cases "membraneArea fd")
    case NaN
    then show ?thesis using a by simp
  next
    case (Infinity s)
    then show ?thesis using a by (simp add: area_scaling_factor_def lit_0 fdiv_NaN_right)
  next
    case (Fin s m)
    then have "m = 0 \<or> s" using a by (auto simp: lit_0 is_double_Fin_iff split: if_splits)
    then show ?thesis unfolding area_scaling_factor_def Fin lit_7_0 by auto
  qed
  then have "\<not> isFinite (predicted_pressure fd)"
    unfolding predicted_pressure_def
    by (cases "area_scaling_factor fd")
      (simp_all add: fmul_NaN_right fmul_Infinity_right_not_finite fadd_not_finite_left)
  then have "\<not> isFinite (rounded (predicted_pressure fd))" by (simp add: rounded_not_finite)
  then show "\<exists>v. calculateMinimumPressure \<lparr>formData = fd, predictedPressure = p\<rparr> =
        Inr \<lparr>formData = fd, predictedPressure = Some v\<rparr> \<and> \<not> isFinite v"
    by (simp add: calculateMinimumPressure_rounded)
next
  show "calculateMinimumPressure
     \<lparr>formData =
          \<lparr>salinity = lit 0.68, temperature = lit 22, pH = lit 7.7,
            turbidity = lit 5.2, membraneArea = lit 10, foulingFactor = lit 0.1\<rparr>,
      predictedPressure = p\<rparr> =
   Inr
     \<lparr>formData =
          \<lparr>salinity = lit 0.68, temperature = lit 22, pH = lit 7.7,
            turbidity = lit 5.2, membraneArea = lit 10, foulingFactor = lit 0.1\<rparr>,
      predictedPressure = Some (lit 152.26)\<rparr>"
    by (rule calc_area_10)
next
  show "isFinite (lit 152.26)" by (simp only: lit_152_26 isFinite.simps)
qed

theorem nonpositive_area_stores_nonfinite_witness:
  "is_double (lit 0) \<and> js_le (lit 0) (lit 0) \<and>
   (\<exists>v. calculateMinimumPressure
          \<lparr>formData = initial_formData\<lparr>membraneArea := lit 0\<rparr>, predictedPressure = None\<rparr> =
        Inr \<lparr>formData = initial_formData\<lparr>membraneArea := lit 0\<rparr>,
             predictedPressure = Some v\<rparr> \<and>
        \<not> isFinite v)"
proof -
  have "is_double (lit 0)" by (simp add: is_double_lit)
  moreover have "js_le (lit 0) (lit 0)" by (simp add: lit_0)
  ultimately show ?thesis
    using nonpositive_area_stores_nonfinite [of "initial_formData\<lparr>membraneArea := lit 0\<rparr>" None]
    by simp
qed

text \<open>
  C4. \<^verbatim>\<open>calculateMinimumPressure\<close> never throws: for every state it returns normally and
  stores a number. When membraneArea is a zero the area scaling factor is the infinity
  of the zero's sign (\<open>Infinity\<close> for 0) and the stored number is not finite. When
  membraneArea is negative the square root is \<open>NaN\<close>, and \<open>NaN\<close> is stored. Nothing in
  the function guards membraneArea.
\<close>

theorem calculateMinimumPressure_completes:
  "(\<exists>v. calculateMinimumPressure st = Inr (st\<lparr>predictedPressure := Some v\<rparr>)) \<and>
   (membraneArea (formData st) = Fin s 0 \<longrightarrow>
      area_scaling_factor (formData st) = Infinity s \<and>
      (\<exists>v. calculateMinimumPressure st = Inr (st\<lparr>predictedPressure := Some v\<rparr>) \<and>
           \<not> isFinite v)) \<and>
   (is_double (membraneArea (formData st)) \<and> js_lt (membraneArea (formData st)) (lit 0) \<longrightarrow>
      Math_sqrt (membraneArea (formData st)) = NaN \<and>
      area_scaling_factor (formData st) = NaN \<and>
      calculateMinimumPressure st = Inr (st\<lparr>predictedPressure := Some NaN\<rparr>))"
proof (intro conjI impI)
  show "\<exists>v. calculateMinimumPressure st = Inr (st\<lparr>predictedPressure := Some v\<rparr>)"
    by (rule exI, rule calculateMinimumPressure_rounded)
next
  assume z: "membraneArea (formData st) = Fin s 0"
  show asf: "area_scaling_factor (formData st) = Infinity s"
    unfolding area_scaling_factor_def z lit_7_0 by simp
  have "\<not> isFinite (predicted_pressure (formData st))"
    by (simp add: predicted_pressure_def asf fmul_Infinity_right_not_finite
        fadd_not_finite_left)
  then have "\<not> isFinite (rounded (predicted_pressure (formData st)))"
    by (simp add: rounded_not_finite)
  then show "\<exists>v. calculateMinimumPressure st = Inr (st\<lparr>predictedPressure := Some v\<rparr>) \<and>
      \<not> isFinite v"
    using calculateMinimumPressure_rounded [of st] by blast
next
  assume "is_double (membraneArea (formData st)) \<and> js_lt (membraneArea (formData st)) (lit 0)"
  then show sq: "Math_sqrt (membraneArea (formData st)) = NaN"
    unfolding lit_0 by (simp add: Math_sqrt_negative)
  then show asf: "area_scaling_factor (formData st) = NaN"
    by (simp add: area_scaling_factor_def fdiv_NaN_right)
  then have "predicted_pressure (formData st) = NaN"
    by (simp add: predicted_pressure_def fmul_NaN_right)
  then show "calculateMinimumPressure st = Inr (st\<lparr>predictedPressure := Some NaN\<rparr>)"
    by (simp add: calculateMinimumPressure_rounded rounded_not_finite)
qed

theorem calculateMinimumPressure_completes_witness:
  "area_scaling_factor (initial_formData\<lparr>membraneArea := Fin False 0\<rparr>) = Infinity False \<and>
   (\<exists>v. calculateMinimumPressure
          (initial_state\<lparr>formData := initial_formData\<lparr>membraneArea := Fin False 0\<rparr>\<rparr>) =
        Inr \<lparr>formData = initial_formData\<lparr>membraneArea := Fin False 0\<rparr>,
             predictedPressure = Some v\<rparr> \<and>
        \<not> isFinite v) \<and>
   is_double (Fin True 5) \<and> js_lt (Fin True 5) (lit 0) \<and>
   Math_sqrt (Fin True 5) = NaN \<and>
   calculateMinimumPressure
     (initial_state\<lparr>formData := initial_formData\<lparr>membraneArea := Fin True 5\<rparr>\<rparr>) =
   Inr \<lparr>formData = initial_formData\<lparr>membraneArea := Fin True 5\<rparr>,
        predictedPressure = Some NaN\<rparr>"
proof -
  have d: "is_double (Fin True 5)"
    using is_double_fneg [OF is_double_lit [of 5]] by (simp add: lit_5)
  have l: "js_lt (Fin True 5) (lit 0)" by (simp add: lit_0)
  show ?thesis
    using d l
      calculateMinimumPressure_completes
        [of "initial_state\<lparr>formData := initial_formData\<lparr>membraneArea := Fin False 0\<rparr>\<rparr>" False]
      calculateMinimumPressure_completes
        [of "initial_state\<lparr>formData := initial_formData\<lparr>membraneArea := Fin True 5\<rparr>\<rparr>"]
    by (simp add: initial_state_def)
qed

text \<open>
  C5. The stored number depends on the six form fields only: two states with the same
  form data get the same number, whatever was stored before, and calling the function
  again on its own result changes nothing. The call leaves the form data as they are.
\<close>

theorem calculateMinimumPressure_deterministic:
  "(formData st1 = formData st2 \<longrightarrow>
      (\<exists>v. calculateMinimumPressure st1 = Inr (st1\<lparr>predictedPressure := Some v\<rparr>) \<and>
           calculateMinimumPressure st2 = Inr (st2\<lparr>predictedPressure := Some v\<rparr>))) \<and>
   (calculateMinimumPressure st = Inr st' \<longrightarrow>
      formData st' = formData st \<and> calculateMinimumPressure st' = Inr st')"
proof (intro conjI impI)
  assume eq: "formData st1 = formData st2"
  have "calculateMinimumPressure st1 =
      Inr (st1\<lparr>predictedPressure := Some (rounded (predicted_pressure (formData st2)))\<rparr>)"
    using calculateMinimumPressure_rounded [of st1] eq by simp
  then show "\<exists>v. calculateMinimumPressure st1 = Inr (st1\<lparr>predictedPressure := Some v\<rparr>) \<and>
      calculateMinimumPressure st2 = Inr (st2\<lparr>predictedPressure := Some v\<rparr>)"
    using calculateMinimumPressure_rounded [of st2] by blast
next
  assume "calculateMinimumPressure st = Inr st'"
  then have st': "st' = st\<lparr>predictedPressure := Some (rounded (predicted_pressure (formData st)))\<rparr>"
    by (simp add: calculateMinimumPressure_rounded)
  then show "formData st' = formData st" by simp
  then show "calculateMinimumPressure st' = Inr st'"
    using calculateMinimumPressure_rounded [of st'] by (simp add: st')
qed

theorem calculateMinimumPressure_deterministic_witness:
  "(\<exists>v. calculateMinimumPressure initial_state =
          Inr (initial_state\<lparr>predictedPressure := Some v\<rparr>) \<and>
        calculateMinimumPressure (initial_state\<lparr>predictedPressure := Some (Fin False 1)\<rparr>) =
          Inr (initial_state\<lparr>predictedPressure := Some v\<rparr>)) \<and>
   calculateMinimumPressure initial_state =
     Inr (initial_state\<lparr>predictedPressure := Some (lit 69.86)\<rparr>) \<and>
   calculateMinimumPressure (initial_state\<lparr>predictedPressure := Some (lit 69.86)\<rparr>) =
     Inr (initial_state\<lparr>predictedPressure := Some (lit 69.86)\<rparr>)"
proof -
  have c: "calculateMinimumPressure initial_state =
      Inr (initial_state\<lparr>predictedPressure := Some (lit 69.86)\<rparr>)"
    using calc_defaults [of None] by (simp add: initial_state_def initial_formData_def)
  show ?thesis
    using c
      calculateMinimumPressure_deterministic
        [of initial_state "initial_state\<lparr>predictedPressure := Some (Fin False 1)\<rparr>"
          initial_state "initial_state\<lparr>predictedPressure := Some (lit 69.86)\<rparr>"]
    by simp
qed

text \<open>
  C6 (as stated, refuted). With membraneArea 50 and the other fields at their defaults,
  raising foulingFactor from 0.1 to 0.10001 leaves the stored number at 69.86: a strict
  increase of foulingFactor does not strictly increase the output.
\<close>

theorem fouling_increase_same_output:
  "js_lt (lit 0) (lit 50) \<and> js_lt (lit 0.1) (lit 0.10001) \<and>
   predict
     \<lparr>salinity = lit 0.68, temperature = lit 22, pH = lit 7.7,
       turbidity = lit 5.2, membraneArea = lit 50, foulingFactor = lit 0.1\<rparr> =
     Some (lit 69.86) \<and>
   predict
     \<lparr>salinity = lit 0.68, temperature = lit 22, pH = lit 7.7,
       turbidity = lit 5.2, membraneArea = lit 50, foulingFactor = lit 0.10001\<rparr> =
     Some (lit 69.86) \<and>
   \<not> js_lt (lit 69.86) (lit 69.86)"
  unfolding predict_def calc_defaults calc_fouling_up
  by (simp only: lit_0 lit_50 lit_0_1 lit_0_10001 lit_69_86) simp

text \<open>
  C6 (amended). Holding the other fields fixed, a larger foulingFactor never gives a
  smaller stored number, and for membraneArea > 0 a larger turbidity never gives a
  smaller stored number. The stored number can stay the same, since it is rounded to
  two decimals.
\<close>

theorem fouling_and_turbidity_never_decrease:
  "(is_double f1 \<and> is_double f2 \<and> js_lt f1 f2 \<longrightarrow>
      (\<exists>o1 o2. predict (fd\<lparr>foulingFactor := f1\<rparr>) = Some o1 \<and>
               predict (fd\<lparr>foulingFactor := f2\<rparr>) = Some o2 \<and> \<not> js_lt o2 o1)) \<and>
   (is_double (membraneArea fd) \<and> js_lt (lit 0) (membraneArea fd) \<and>
    is_double t1 \<and> is_double t2 \<and> js_lt t1 t2 \<longrightarrow>
      (\<exists>o1 o2. predict (fd\<lparr>turbidity := t1\<rparr>) = Some o1 \<and>
               predict (fd\<lparr>turbidity := t2\<rparr>) = Some o2 \<and> \<not> js_lt o2 o1))"
proof (intro conjI impI)
  assume h: "is_double f1 \<and> is_double f2 \<and> js_lt f1 f2"
  define X where "X =
    fmul (fadd (fadd (pressure_after_temp fd) (turbidity_penalty fd)) (pH_penalty fd))
      (area_scaling_factor fd)"
  have pp: "predicted_pressure (fd\<lparr>foulingFactor := f\<rparr>) = fadd X (fmul (Fin False 32) f)" for f
    unfolding predicted_pressure_def fouling_penalty_def lit_32 X_def
    by (simp add: pressure_after_temp_def operational_pressure_def osmotic_pressure_def
        T_K_def viscosity_adjustment_def turbidity_penalty_def pH_penalty_def
        area_scaling_factor_def)
  have "no_decrease f1 f2" using h by (simp add: js_lt_no_decrease)
  then have "no_decrease (fmul (Fin False 32) f1) (fmul (Fin False 32) f2)"
    using h by (intro fmul_left_const_mono) simp_all
  then have "no_decrease (fadd X (fmul (Fin False 32) f1)) (fadd X (fmul (Fin False 32) f2))"
    by (rule fadd_right_mono)
  then have "no_decrease (rounded (predicted_pressure (fd\<lparr>foulingFactor := f1\<rparr>)))
      (rounded (predicted_pressure (fd\<lparr>foulingFactor := f2\<rparr>)))"
    unfolding pp by (intro rounded_mono is_double_fadd)
  then show "\<exists>o1 o2. predict (fd\<lparr>foulingFactor := f1\<rparr>) = Some o1 \<and>
      predict (fd\<lparr>foulingFactor := f2\<rparr>) = Some o2 \<and> \<not> js_lt o2 o1"
    by (simp add: predict_rounded no_decrease_def)
next
  assume h: "is_double (membraneArea fd) \<and> js_lt (lit 0) (membraneArea fd) \<and>
    is_double t1 \<and> is_double t2 \<and> js_lt t1 t2"
  define A where "A = fdiv (Fin False 7) (Math_sqrt (membraneArea fd))"
  have pp: "predicted_pressure (fd\<lparr>turbidity := t\<rparr>) =
      fadd (fmul (fadd (fadd (pressure_after_temp fd) (fmul (Fin False (5 / 2)) t)) (pH_penalty fd)) A)
        (fouling_penalty fd)" for t
    unfolding predicted_pressure_def turbidity_penalty_def area_scaling_factor_def
      lit_2_5 lit_7_0 A_def
    by (simp add: pressure_after_temp_def operational_pressure_def osmotic_pressure_def
        T_K_def viscosity_adjustment_def fouling_penalty_def pH_penalty_def)
  have A: "A = Infinity False \<or> (\<exists>r. A = Fin False r \<and> 0 \<le> r)"
    unfolding A_def using h by (intro area_scaling_factor_nonneg) (simp_all add: lit_0)
  have "no_decrease t1 t2" using h by (simp add: js_lt_no_decrease)
  then have "no_decrease (fmul (Fin False (5 / 2)) t1) (fmul (Fin False (5 / 2)) t2)"
    using h by (intro fmul_left_const_mono) simp_all
  then have "no_decrease (fadd (pressure_after_temp fd) (fmul (Fin False (5 / 2)) t1))
      (fadd (pressure_after_temp fd) (fmul (Fin False (5 / 2)) t2))"
    by (rule fadd_right_mono)
  then have "no_decrease
      (fadd (fadd (pressure_after_temp fd) (fmul (Fin False (5 / 2)) t1)) (pH_penalty fd))
      (fadd (fadd (pressure_after_temp fd) (fmul (Fin False (5 / 2)) t2)) (pH_penalty fd))"
    by (rule fadd_left_mono)
  then have "no_decrease
      (fmul (fadd (fadd (pressure_after_temp fd) (fmul (Fin False (5 / 2)) t1)) (pH_penalty fd)) A)
      (fmul (fadd (fadd (pressure_after_temp fd) (fmul (Fin False (5 / 2)) t2)) (pH_penalty fd)) A)"
    by (intro fmul_right_mono [OF A] is_double_fadd)
  then have "no_decrease
      (fadd (fmul (fadd (fadd (pressure_after_temp fd) (fmul (Fin False (5 / 2)) t1))
          (pH_penalty fd)) A) (fouling_penalty fd))
      (fadd (fmul (fadd (fadd (pressure_after_temp fd) (fmul (Fin False (5 / 2)) t2))
          (pH_penalty fd)) A) (fouling_penalty fd))"
    by (rule fadd_left_mono)
  then have "no_decrease (rounded (predicted_pressure (fd\<lparr>turbidity := t1\<rparr>)))
      (rounded (predicted_pressure (fd\<lparr>turbidity := t2\<rparr>)))"
    unfolding pp by (intro rounded_mono is_double_fadd)
  then show "\<exists>o1 o2. predict (fd\<lparr>turbidity := t1\<rparr>) = Some o1 \<and>
      predict (fd\<lparr>turbidity := t2\<rparr>) = Some o2 \<and> \<not> js_lt o2 o1"
    by (simp add: predict_rounded no_decrease_def)
qed

theorem fouling_and_turbidity_never_decrease_witness:
  "is_double (lit 0.1) \<and> is_double (lit 0.10001) \<and> js_lt (lit 0.1) (lit 0.10001) \<and>
   (\<exists>o1 o2. predict (initial_formData\<lparr>foulingFactor := lit 0.1\<rparr>) = Some o1 \<and>
            predict (initial_formData\<lparr>foulingFactor := lit 0.10001\<rparr>) = Some o2 \<and>
            \<not> js_lt o2 o1) \<and>
   is_double (lit 50) \<and> js_lt (lit 0) (lit 50) \<and>
   is_double (lit 5.2) \<and> is_double (lit 5.2001) \<and> js_lt (lit 5.2) (lit 5.2001) \<and>
   (\<exists>o1 o2. predict (initial_formData\<lparr>turbidity := lit 5.2\<rparr>) = Some o1 \<and>
            predict (initial_formData\<lparr>turbidity := lit 5.2001\<rparr>) = Some o2 \<and>
            \<not> js_lt o2 o1)"
proof -
  have d: "is_double (lit 0.1)" "is_double (lit 0.10001)" "is_double (lit 50)"
    "is_double (lit 5.2)" "is_double (lit 5.2001)"
    by (simp_all add: is_double_lit)
  have l: "js_lt (lit 0.1) (lit 0.10001)" "js_lt (lit 0) (lit 50)" "js_lt (lit 5.2) (lit 5.2001)"
    unfolding lit_0 lit_50 lit_0_1 lit_0_10001 lit_5_2 lit_5_2001 by simp_all
  have a: "membraneArea initial_formData = lit 50" unfolding initial_formData_def by simp
  show ?thesis
    using d l a
      fouling_and_turbidity_never_decrease
        [of "lit 0.1" "lit 0.10001" initial_formData "lit 5.2" "lit 5.2001"]
    by (intro conjI) (simp_all only: simp_thms)
qed



text \<open>
  C8. For salinity 2.0, temperature 5 and foulingFactor 1.0, the other fields at their
  defaults, the function stores 203.41, which lies outside the range from 35 to 70: the
  result is not clamped. It is the value of the formula, which lies between 203.41 and
  203.42, rounded to 2 decimal places.
\<close>

theorem extreme_input_not_clamped:
  "calculateMinimumPressure
     \<lparr>formData =
          \<lparr>salinity = lit 2.0, temperature = lit 5, pH = lit 7.7,
            turbidity = lit 5.2, membraneArea = lit 50, foulingFactor = lit 1.0\<rparr>,
      predictedPressure = None\<rparr> =
   Inr
     \<lparr>formData =
          \<lparr>salinity = lit 2.0, temperature = lit 5, pH = lit 7.7,
            turbidity = lit 5.2, membraneArea = lit 50, foulingFactor = lit 1.0\<rparr>,
      predictedPressure = Some (lit 203.41)\<rparr> \<and>
   js_lt (lit 70) (lit 203.41) \<and>
   \<not> (js_le (lit 35) (lit 203.41) \<and> js_le (lit 203.41) (lit 70)) \<and>
   js_lt (lit 203.41)
     (predicted_pressure
        \<lparr>salinity = lit 2.0, temperature = lit 5, pH = lit 7.7,
          turbidity = lit 5.2, membraneArea = lit 50, foulingFactor = lit 1.0\<rparr>) \<and>
   js_lt
     (predicted_pressure
        \<lparr>salinity = lit 2.0, temperature = lit 5, pH = lit 7.7,
          turbidity = lit 5.2, membraneArea = lit 50, foulingFactor = lit 1.0\<rparr>)
     (lit 203.42)"
  unfolding pp_extreme calc_extreme [of None]
  by (simp only: lit_203_41 lit_203_42 lit_70 lit_35) simp

text \<open>
  C9. \<^verbatim>\<open>ensureNumber\<close> is a function of the text and the default: when the text parses
  (\<^verbatim>\<open>parseFloat\<close> is not \<open>NaN\<close>) it returns the parsed number, and when it does not
  parse it returns the default. Each of the six handlers passes its documented default
  (0.68, 22, 7.7, 5.2, 50, 0.1) and stores a number in the form, so the form data that
  \<^verbatim>\<open>calculateMinimumPressure\<close> reads hold numbers, never text.
\<close>

theorem ensureNumber_parsed_or_default:
  "(\<not> isNaN (parseFloat v) \<longrightarrow> ensureNumber v d = parseFloat v) \<and>
   (isNaN (parseFloat v) \<longrightarrow>
      ensureNumber v d = d \<and>
      salinity (formData (onChange_salinity v st)) = lit 0.68 \<and>
      temperature (formData (onChange_temperature v st)) = lit 22 \<and>
      pH (formData (onChange_pH v st)) = lit 7.7 \<and>
      turbidity (formData (onChange_turbidity v st)) = lit 5.2 \<and>
      membraneArea (formData (onChange_membraneArea v st)) = lit 50 \<and>
      foulingFactor (formData (onChange_foulingFactor v st)) = lit 0.1)"
  unfolding onChange_salinity_def onChange_temperature_def onChange_pH_def
    onChange_turbidity_def onChange_membraneArea_def onChange_foulingFactor_def
    ensureNumber_def Let_def
  by simp

theorem ensureNumber_parsed_or_default_witness:
  "\<not> isNaN (parseFloat ''1.5'') \<and> ensureNumber ''1.5'' (lit 0.68) = parseFloat ''1.5'' \<and>
   parseFloat ''1.5'' = Fin False (3 / 2) \<and>
   isNaN (parseFloat ''abc'') \<and> ensureNumber ''abc'' (lit 0.68) = lit 0.68 \<and>
   salinity (formData (onChange_salinity ''abc'' initial_state)) = lit 0.68 \<and>
   temperature (formData (onChange_temperature ''abc'' initial_state)) = lit 22 \<and>
   pH (formData (onChange_pH ''abc'' initial_state)) = lit 7.7 \<and>
   turbidity (formData (onChange_turbidity ''abc'' initial_state)) = lit 5.2 \<and>
   membraneArea (formData (onChange_membraneArea ''abc'' initial_state)) = lit 50 \<and>
   foulingFactor (formData (onChange_foulingFactor ''abc'' initial_state)) = lit 0.1"
proof -
  have 1: "parseFloat ''1.5'' = Fin False (3 / 2)"
    by (simp add: parseFloat_def str_unsigned_decimal_def is_ws_def is_digit_def digits_val_def
          digit_val_def exponent_part_def pow10_def Let_def,
        rule round_to_double_eqI [where k = 0 and n = "3 * 2 ^ 51"], simp_all add: pow2_def)
  have 2: "parseFloat ''abc'' = NaN"
    by (simp add: parseFloat_def str_unsigned_decimal_def is_ws_def is_digit_def)
  show ?thesis
    using ensureNumber_parsed_or_default [of "''1.5''" "lit 0.68"]
      ensureNumber_parsed_or_default [of "''abc''" "lit 0.68" initial_state]
    by (simp add: 1 2)
qed



end
